theory Spec2Isabelle
  imports
    Complex_Main
    "HOL-Library.Word"
    "HOL-Library.Monad_Syntax"
    "HOL-Library.List_Lexorder"
    "HOL-Library.Char_ord"
begin

unbundle bit_operations_syntax

section \<open>Errors\<close>

text \<open>
  Every way a call of the server can end without a result: an error value handed back
  to the caller (a parse error of the time or number parser, an error of the store or
  of the JSON codec), or a run-time panic of Go (a slice or index out of range), which
  no function of the program recovers from.
\<close>

datatype num_error = ErrSyntax | ErrRange

datatype panic = SliceBoundsOutOfRange | IndexOutOfRange

datatype error =
    ParseError
  | NumError num_error
  | StoreError
  | JSONError
  | Panic panic

text \<open>The spec's DecodeError: a returned error of one of the two parsers.\<close>

fun is_DecodeError :: "error \<Rightarrow> bool" where
  "is_DecodeError ParseError = True"
| "is_DecodeError (NumError _) = True"
| "is_DecodeError _ = False"

section \<open>The library functions the decoder calls\<close>

subsection \<open>strings.Split and strings.Replace on one-byte separators\<close>

text \<open>
  \<^verbatim>\<open>strings.Split(s, sep)\<close> with a separator of one byte: the segments between
  the separators, in order; a string with n separators has n + 1 segments, so the
  result is never empty.
\<close>

fun Split :: "string \<Rightarrow> char \<Rightarrow> string list" where
  "Split [] sep = [[]]"
| "Split (c # cs) sep =
     (if c = sep then [] # Split cs sep
      else (case Split cs sep of
              [] \<Rightarrow> [[c]]
            | p # ps \<Rightarrow> (c # p) # ps))"

text \<open>\<^verbatim>\<open>strings.Replace(s, old, new, -1)\<close> with one-byte \<open>old\<close> and \<open>new\<close>.\<close>

definition Replace :: "string \<Rightarrow> char \<Rightarrow> char \<Rightarrow> string" where
  "Replace s old new = map (\<lambda>c. if c = old then new else c) s"

subsection \<open>strconv.ParseInt in base 10\<close>

definition isDigit :: "char \<Rightarrow> bool" where
  "isDigit c = (CHR ''0'' \<le> c \<and> c \<le> CHR ''9'')"

definition digitVal :: "char \<Rightarrow> nat" where
  "digitVal c = of_char c - of_char (CHR ''0'')"

text \<open>
  The digit loop of \<^verbatim>\<open>strconv.ParseUint(s, 10, bitSize)\<close>, with the value so far:
  a byte that is no digit is a syntax error, a value that leaves the range a range
  error, found in the order of the bytes.
\<close>

fun ParseUint_loop :: "nat \<Rightarrow> nat \<Rightarrow> string \<Rightarrow> num_error + nat" where
  "ParseUint_loop maxVal n [] = Inr n"
| "ParseUint_loop maxVal n (c # cs) =
     (if \<not> isDigit c then Inl ErrSyntax
      else if n \<ge> (2 ^ 64 - 1) div 10 + 1 then Inl ErrRange
      else let n1 = n * 10 + digitVal c
           in if n1 > maxVal then Inl ErrRange
              else ParseUint_loop maxVal n1 cs)"

definition ParseUint :: "string \<Rightarrow> nat \<Rightarrow> num_error + nat" where
  "ParseUint s bitSize =
     (if s = [] then Inl ErrSyntax
      else ParseUint_loop (2 ^ bitSize - 1) 0 s)"

text \<open>
  \<^verbatim>\<open>strconv.ParseInt(s, 10, bitSize)\<close>: an optional sign, then the digits. On a range
  error of the digits ParseUint hands back its largest value, which ParseInt then
  finds out of range in turn.
\<close>

definition ParseInt :: "string \<Rightarrow> nat \<Rightarrow> error + int" where
  "ParseInt s bitSize =
     (if s = [] then Inl (NumError ErrSyntax)
      else
        let neg = (hd s = CHR ''-'');
            s1 = (if hd s = CHR ''+'' \<or> hd s = CHR ''-'' then tl s else s)
        in case ParseUint s1 bitSize of
             Inl ErrSyntax \<Rightarrow> Inl (NumError ErrSyntax)
           | Inl ErrRange \<Rightarrow> Inl (NumError ErrRange)
           | Inr un \<Rightarrow>
               let cutoff = 2 ^ (bitSize - 1)
               in if \<not> neg \<and> un \<ge> cutoff then Inl (NumError ErrRange)
                  else if neg \<and> un > cutoff then Inl (NumError ErrRange)
                  else Inr (if neg then - int un else int un))"

subsection \<open>time.Parse with the layout of the wire format\<close>

text \<open>
  A \<^verbatim>\<open>time.Time\<close> in UTC, as \<^verbatim>\<open>time.Parse\<close> builds it from a text without a zone.
\<close>

record Time =
  tYear :: int
  tMonth :: int
  tDay :: int
  tHour :: int
  tMinute :: int
  tSecond :: int
  tNsec :: int

text \<open>
  \<^verbatim>\<open>getnum(s, fixed)\<close> of package time: one or two digits (two when \<open>fixed\<close>), and
  the rest of the text.
\<close>

definition getnum :: "string \<Rightarrow> bool \<Rightarrow> (int \<times> string) option" where
  "getnum s fixed =
     (case s of
        [] \<Rightarrow> None
      | c0 # r0 \<Rightarrow>
          if \<not> isDigit c0 then None
          else (case r0 of
                  [] \<Rightarrow> if fixed then None else Some (int (digitVal c0), r0)
                | c1 # r1 \<Rightarrow>
                    if \<not> isDigit c1
                    then (if fixed then None else Some (int (digitVal c0), r0))
                    else Some (int (digitVal c0) * 10 + int (digitVal c1), r1)))"

text \<open>
  \<^verbatim>\<open>skip(value, prefix)\<close> for the two kinds of literal text the layout has: one byte
  that must be there, and a space, which stands for any run of spaces (and is refused
  before another byte).
\<close>

definition skip_byte :: "char \<Rightarrow> string \<Rightarrow> string option" where
  "skip_byte c v = (case v of [] \<Rightarrow> None | x # xs \<Rightarrow> if x = c then Some xs else None)"

definition skip_space :: "string \<Rightarrow> string option" where
  "skip_space v =
     (case v of
        [] \<Rightarrow> Some []
      | x # xs \<Rightarrow> if x \<noteq> CHR '' '' then None
                  else Some (dropWhile (\<lambda>c. c = CHR '' '') v))"

text \<open>The four-digit year of \<^verbatim>\<open>2006\<close> in a layout.\<close>

fun digitsVal :: "nat \<Rightarrow> string \<Rightarrow> nat" where
  "digitsVal acc [] = acc"
| "digitsVal acc (c # cs) = digitsVal (acc * 10 + digitVal c) cs"

definition longYear :: "string \<Rightarrow> (int \<times> string) option" where
  "longYear v =
     (if length v < 4 \<or> \<not> list_all isDigit (take 4 v) then None
      else Some (int (digitsVal 0 (take 4 v)), drop 4 v))"

text \<open>
  A fractional second in the text that the layout does not name: after the seconds, a
  period or comma and a digit start a run of digits, of which the first nine count,
  as nanoseconds.
\<close>

definition fracSecond :: "string \<Rightarrow> int \<times> string" where
  "fracSecond v =
     (case v of
        sep # d # r \<Rightarrow>
          if (sep = CHR ''.'' \<or> sep = CHR '','') \<and> isDigit d
          then let ds = takeWhile isDigit (d # r);
                   ds9 = take 9 ds
               in (int (digitsVal 0 ds9 * 10 ^ (9 - length ds9)),
                   dropWhile isDigit (d # r))
          else (0, v)
      | _ \<Rightarrow> (0, v))"

definition isLeap :: "int \<Rightarrow> bool" where
  "isLeap y = (y mod 4 = 0 \<and> (y mod 100 \<noteq> 0 \<or> y mod 400 = 0))"

definition daysIn :: "int \<Rightarrow> int \<Rightarrow> int" where
  "daysIn m y =
     (if m = 2 then (if isLeap y then 29 else 28)
      else if m = 4 \<or> m = 6 \<or> m = 9 \<or> m = 11 then 30
      else 31)"

text \<open>
  \<^verbatim>\<open>time.Parse("2006-1-2 15:4:5", value)\<close>: the year in four digits, month, day,
  hour, minute and second in one or two digits each, every number checked against its
  range as it is read, nothing after the seconds but a fractional second, and the day
  checked against the month at the end.
\<close>

definition parseLayout :: "string \<Rightarrow> Time option" where
  "parseLayout value = do {
     (y, v) \<leftarrow> longYear value;
     v \<leftarrow> skip_byte (CHR ''-'') v;
     (mo, v) \<leftarrow> getnum v False;
     if mo \<le> 0 \<or> 12 < mo then None else do {
     v \<leftarrow> skip_byte (CHR ''-'') v;
     (d, v) \<leftarrow> getnum v False;
     v \<leftarrow> skip_space v;
     (h, v) \<leftarrow> getnum v False;
     if 24 \<le> h then None else do {
     v \<leftarrow> skip_byte (CHR '':'') v;
     (mi, v) \<leftarrow> getnum v False;
     if 60 \<le> mi then None else do {
     v \<leftarrow> skip_byte (CHR '':'') v;
     (s, v) \<leftarrow> getnum v False;
     if 60 \<le> s then None else
       (case fracSecond v of
          (ns, v) \<Rightarrow>
            if v \<noteq> [] then None
            else if d < 1 \<or> d > daysIn mo y then None
            else Some \<lparr>tYear = y, tMonth = mo, tDay = d, tHour = h,
                        tMinute = mi, tSecond = s, tNsec = ns\<rparr>)
     }}}}"

definition time_Parse :: "string \<Rightarrow> error + Time" where
  "time_Parse value =
     (case parseLayout value of None \<Rightarrow> Inl ParseError | Some t \<Rightarrow> Inr t)"

text \<open>
  \<^verbatim>\<open>Time.Unix()\<close>: the seconds since 1970-01-01 00:00:00 UTC, through the number of
  days of the civil date in the proleptic Gregorian calendar.
\<close>

definition daysFromCivil :: "int \<Rightarrow> int \<Rightarrow> int \<Rightarrow> int" where
  "daysFromCivil y m d =
     (let y1 = (if m \<le> 2 then y - 1 else y);
          era = y1 div 400;
          yoe = y1 - era * 400;
          mp = (if m > 2 then m - 3 else m + 9);
          doy = (153 * mp + 2) div 5 + d - 1;
          doe = yoe * 365 + yoe div 4 - yoe div 100 + doy
      in era * 146097 + doe - 719468)"

definition Unix :: "Time \<Rightarrow> int" where
  "Unix t =
     daysFromCivil (tYear t) (tMonth t) (tDay t) * 86400
       + tHour t * 3600 + tMinute t * 60 + tSecond t"

section \<open>Ticks and their decoder\<close>

text \<open>
  The struct \<^verbatim>\<open>Tick\<close> of main.go. \<open>Temperature\<close> and \<open>BatteryVoltageVisual\<close> are
  the two fields filled in when ticks are read back; \<open>controllerID\<close> is the field
  that is never serialized.
\<close>

record Tick =
  Datetime :: Time
  SensorID :: int
  NextDataSession :: string
  BatteryVoltage :: string
  Sensor1 :: string
  Sensor2 :: string
  RadioQuality :: string
  Temperature :: real
  BatteryVoltageVisual :: real
  controllerID :: string

text \<open>
  \<^verbatim>\<open>NewTick(input)\<close>. The slice \<^verbatim>\<open>input[1 : len(input)-1]\<close> panics on an input
  shorter than two bytes; \<^verbatim>\<open>parts[0]\<close> always exists; \<^verbatim>\<open>parts[1]\<close> and the
  fields of the struct literal, \<^verbatim>\<open>parts[2]\<close> to \<^verbatim>\<open>parts[6]\<close>, panic when the
  record has too few fields. The eighth field is read only when it is there.
\<close>

definition NewTick :: "string \<Rightarrow> error + Tick" where
  "NewTick input =
     (if length input < 2 then Inl (Panic SliceBoundsOutOfRange)
      else
        let contents = take (length input - 2) (drop 1 input);
            parts = Split contents (CHR '';'')
        in case time_Parse (parts ! 0) of
             Inl e \<Rightarrow> Inl e
           | Inr datetime \<Rightarrow>
               if length parts < 2 then Inl (Panic IndexOutOfRange)
               else (case ParseInt (parts ! 1) 64 of
                       Inl e \<Rightarrow> Inl e
                     | Inr sensorID \<Rightarrow>
                         if length parts < 7 then Inl (Panic IndexOutOfRange)
                         else Inr \<lparr>Datetime = datetime,
                                   SensorID = sensorID,
                                   NextDataSession = parts ! 2,
                                   BatteryVoltage = parts ! 3,
                                   Sensor1 = parts ! 4,
                                   Sensor2 = parts ! 5,
                                   RadioQuality = parts ! 6,
                                   Temperature = 0,
                                   BatteryVoltageVisual = 0,
                                   controllerID =
                                     (if length parts \<ge> 8 then parts ! 7 else [])\<rparr>))"

section \<open>The codec of the derived measurements\<close>

text \<open>
  \<^verbatim>\<open>decodeTemperature(n int32)\<close>. The sum only takes the values k / 2 with
  0 \<le> k \<le> 255, which float64 holds exactly, so the sum is the real number.
\<close>

definition decodeTemperature :: "32 word \<Rightarrow> real" where
  "decodeTemperature n =
     (let sum = 0;
          sum = (if n AND push_bit 7 1 \<noteq> 0 then sum + 0.5 else sum);
          sum = (if n AND push_bit 8 1 \<noteq> 0 then sum + 1 else sum);
          sum = (if n AND push_bit 9 1 \<noteq> 0 then sum + 2 else sum);
          sum = (if n AND push_bit 10 1 \<noteq> 0 then sum + 4 else sum);
          sum = (if n AND push_bit 11 1 \<noteq> 0 then sum + 8 else sum);
          sum = (if n AND push_bit 12 1 \<noteq> 0 then sum + 16 else sum);
          sum = (if n AND push_bit 13 1 \<noteq> 0 then sum + 32 else sum);
          sum = (if n AND push_bit 14 1 \<noteq> 0 then sum + 64 else sum)
      in if n AND push_bit 15 1 \<noteq> 0 then - sum else sum)"

text \<open>
  \<^verbatim>\<open>formatBatteryVoltage(input)\<close>. The quotient is kept exact: the float64 the
  program returns is this number rounded.
\<close>

definition formatBatteryVoltage :: "string \<Rightarrow> error + real" where
  "formatBatteryVoltage input =
     (case ParseInt input 64 of
        Inl e \<Rightarrow> Inl e
      | Inr v \<Rightarrow> Inr (real_of_int v / 1000))"

section \<open>The store\<close>

text \<open>
  The Redis server, as far as the program uses it: sets, hashes and sorted sets, each
  under its key. The keys the program builds for the three kinds never coincide, so
  each kind has a keyspace of its own. A sorted set is the list of its entries, score
  and member, in the order of the server: by score, and by the bytes of the member
  among equal scores; a member stands in it once. A server that cannot be reached
  answers every command with an error.
\<close>

record Redis =
  available :: bool
  sets :: "string \<Rightarrow> string set"
  hashes :: "string \<Rightarrow> string \<Rightarrow> string option"
  zsets :: "string \<Rightarrow> (int \<times> string) list"

definition SADD :: "Redis \<Rightarrow> string \<Rightarrow> string \<Rightarrow> error + Redis" where
  "SADD st k member =
     (if \<not> available st then Inl StoreError
      else Inr (st\<lparr>sets := (sets st)(k := insert member (sets st k))\<rparr>))"

definition HSET :: "Redis \<Rightarrow> string \<Rightarrow> string \<Rightarrow> string \<Rightarrow> error + Redis" where
  "HSET st k field v =
     (if \<not> available st then Inl StoreError
      else Inr (st\<lparr>hashes := (hashes st)(k := (hashes st k)(field \<mapsto> v))\<rparr>))"

definition HGET :: "Redis \<Rightarrow> string \<Rightarrow> string \<Rightarrow> error + string option" where
  "HGET st k field =
     (if \<not> available st then Inl StoreError else Inr (hashes st k field))"

text \<open>\<^verbatim>\<open>redis.String\<close> on the reply of HGET, with \<^verbatim>\<open>redis.ErrNil\<close> let through.\<close>

definition redis_String :: "string option \<Rightarrow> string" where
  "redis_String reply = (case reply of None \<Rightarrow> [] | Some v \<Rightarrow> v)"

definition zle :: "int \<times> string \<Rightarrow> int \<times> string \<Rightarrow> bool" where
  "zle a b = (fst a < fst b \<or> (fst a = fst b \<and> snd a \<le> snd b))"

fun zinsert :: "int \<times> string \<Rightarrow> (int \<times> string) list \<Rightarrow> (int \<times> string) list" where
  "zinsert e [] = [e]"
| "zinsert e (x # xs) = (if zle e x then e # x # xs else x # zinsert e xs)"

text \<open>ZADD: a member that is there already is moved to its new score.\<close>

definition zadd :: "(int \<times> string) list \<Rightarrow> int \<Rightarrow> string \<Rightarrow> (int \<times> string) list" where
  "zadd z score member = zinsert (score, member) (filter (\<lambda>e. snd e \<noteq> member) z)"

definition ZADD :: "Redis \<Rightarrow> string \<Rightarrow> int \<Rightarrow> string \<Rightarrow> error + Redis" where
  "ZADD st k score member =
     (if \<not> available st then Inl StoreError
      else Inr (st\<lparr>zsets := (zsets st)(k := zadd (zsets st k) score member)\<rparr>))"

definition ZCARD :: "Redis \<Rightarrow> string \<Rightarrow> error + int" where
  "ZCARD st k =
     (if \<not> available st then Inl StoreError else Inr (int (length (zsets st k))))"

text \<open>
  ZREVRANGE: the members from the highest score down, between two indexes. A negative
  index counts from the end, a stop beyond the end is the end, and a start beyond the
  stop or the end gives nothing.
\<close>

definition zrevrange :: "(int \<times> string) list \<Rightarrow> int \<Rightarrow> int \<Rightarrow> string list" where
  "zrevrange z start stop =
     (let llen = int (length z);
          start = (if start < 0 then llen + start else start);
          stop = (if stop < 0 then llen + stop else stop);
          start = (if start < 0 then 0 else start)
      in if start > stop \<or> start \<ge> llen then []
         else let stop = (if stop \<ge> llen then llen - 1 else stop)
              in take (nat (stop - start + 1)) (drop (nat start) (rev (map snd z))))"

definition ZREVRANGE :: "Redis \<Rightarrow> string \<Rightarrow> int \<Rightarrow> int \<Rightarrow> error + string list" where
  "ZREVRANGE st k start stop =
     (if \<not> available st then Inl StoreError else Inr (zrevrange (zsets st k) start stop))"

section \<open>Keys\<close>

text \<open>\<^verbatim>\<open>%d\<close> of an int64, which is also how the client writes an integer argument.\<close>

fun decimal :: "nat \<Rightarrow> string" where
  "decimal n =
     (if n < 10 then [''0123456789'' ! n]
      else decimal (n div 10) @ [''0123456789'' ! (n mod 10)])"

declare decimal.simps [simp del]

definition Sprintf_d :: "int \<Rightarrow> string" where
  "Sprintf_d i = (if i < 0 then CHR ''-'' # decimal (nat (- i)) else decimal (nat i))"

definition keyControllers :: string where
  "keyControllers = ''osp:controllers''"

definition keySensorToController :: string where
  "keySensorToController = ''osp:sensor_to_controller''"

definition keyOfControllerSensors :: "string \<Rightarrow> string" where
  "keyOfControllerSensors cid = ''osp:controller:'' @ cid @ '':sensors''"

definition keyOfSensorTicks :: "int \<Rightarrow> string" where
  "keyOfSensorTicks sensorID = ''osp:sensor:'' @ Sprintf_d sensorID @ '':ticks''"

text \<open>The same keys in storage.go, where a sensor is named by a string.\<close>

definition keyOfCoordinatorSensors :: "string \<Rightarrow> string" where
  "keyOfCoordinatorSensors coordinatorID = ''osp:controller:'' @ coordinatorID @ '':sensors''"

definition keyOfSensorTicks_storage :: "string \<Rightarrow> string" where
  "keyOfSensorTicks_storage sensorID = ''osp:sensor:'' @ sensorID @ '':ticks''"

section \<open>Appending and ingesting ticks\<close>

definition rank :: "Tick \<Rightarrow> int" where
  "rank tick = Unix (Datetime tick)"

definition key :: "Tick \<Rightarrow> string" where
  "key tick = keyOfSensorTicks (SensorID tick)"

text \<open>
  \<^verbatim>\<open>Tick.Save()\<close>. The encoder \<^verbatim>\<open>json.Marshal\<close> is a parameter: what it writes
  for a tick decides nothing below but which appends are the same member.
\<close>

definition Save :: "(Tick \<Rightarrow> error + string) \<Rightarrow> Redis \<Rightarrow> Tick \<Rightarrow> error + Redis" where
  "Save jsonMarshal st tick =
     (case jsonMarshal tick of
        Inl e \<Rightarrow> Inl e
      | Inr b \<Rightarrow> ZADD st (key tick) (rank tick) b)"

text \<open>
  \<^verbatim>\<open>processTick(redisClient, s)\<close>: the error it returns, if any, and the store it
  leaves.
\<close>

definition processTick ::
  "(Tick \<Rightarrow> error + string) \<Rightarrow> Redis \<Rightarrow> string \<Rightarrow> error option \<times> Redis" where
  "processTick jsonMarshal st s =
     (case NewTick s of
        Inl e \<Rightarrow> (Some e, st)
      | Inr tick \<Rightarrow>
     (case Save jsonMarshal st tick of
        Inl e \<Rightarrow> (Some e, st)
      | Inr st \<Rightarrow>
     (case (if controllerID tick = []
            then (case HGET st keySensorToController (Sprintf_d (SensorID tick)) of
                    Inl e \<Rightarrow> Inl e
                  | Inr reply \<Rightarrow> Inr (tick\<lparr>controllerID := redis_String reply\<rparr>))
            else Inr tick) of
        Inl e \<Rightarrow> (Some e, st)
      | Inr tick \<Rightarrow>
     (let tick = (if controllerID tick = [] then tick\<lparr>controllerID := ''1''\<rparr> else tick)
      in case SADD st keyControllers (controllerID tick) of
        Inl e \<Rightarrow> (Some e, st)
      | Inr st \<Rightarrow>
     (case HSET st keySensorToController (Sprintf_d (SensorID tick)) (controllerID tick) of
        Inl e \<Rightarrow> (Some e, st)
      | Inr st \<Rightarrow>
     (case SADD st (keyOfControllerSensors (controllerID tick)) (Sprintf_d (SensorID tick)) of
        Inl e \<Rightarrow> (Some e, st)
      | Inr st \<Rightarrow> (None, st)))))))"

text \<open>
  The loop of \<^verbatim>\<open>ProcessTicks\<close> over the lines of the batch, with the count so far,
  and \<^verbatim>\<open>ProcessTicks(tickList)\<close> itself.
\<close>

fun ProcessTicks_loop ::
  "(Tick \<Rightarrow> error + string) \<Rightarrow> Redis \<Rightarrow> nat \<Rightarrow> string list \<Rightarrow> (error + nat) \<times> Redis" where
  "ProcessTicks_loop jsonMarshal st processedCount [] = (Inr processedCount, st)"
| "ProcessTicks_loop jsonMarshal st processedCount (s # ss) =
     (if length s = 0 then ProcessTicks_loop jsonMarshal st processedCount ss
      else (case processTick jsonMarshal st s of
              (Some e, st) \<Rightarrow> (Inl e, st)
            | (None, st) \<Rightarrow> ProcessTicks_loop jsonMarshal st (processedCount + 1) ss))"

definition ProcessTicks ::
  "(Tick \<Rightarrow> error + string) \<Rightarrow> Redis \<Rightarrow> string \<Rightarrow> (error + nat) \<times> Redis" where
  "ProcessTicks jsonMarshal st tickList =
     ProcessTicks_loop jsonMarshal st 0
       (Split (Replace tickList (CHR 0x0D) (CHR 0x0A)) (CHR 0x0A))"

section \<open>Reading ticks back\<close>

record PaginatedTicks =
  Ticks :: "Tick list"
  Total :: int

text \<open>
  The loop of \<^verbatim>\<open>FindTicks\<close> over the members the server sent, with the result so
  far: each is decoded, and its temperature and battery voltage are worked out from
  the text of the tick.
\<close>

fun FindTicks_loop ::
  "(string \<Rightarrow> error + Tick) \<Rightarrow> PaginatedTicks \<Rightarrow> string list \<Rightarrow> error + PaginatedTicks" where
  "FindTicks_loop jsonUnmarshal result [] = Inr result"
| "FindTicks_loop jsonUnmarshal result (b # bb) =
     (case jsonUnmarshal b of
        Inl e \<Rightarrow> Inl e
      | Inr tick \<Rightarrow>
     (case ParseInt (Sensor1 tick) 32 of
        Inl e \<Rightarrow> Inl e
      | Inr temperature \<Rightarrow>
     (let tick = tick\<lparr>Temperature := decodeTemperature (word_of_int temperature)\<rparr>
      in case formatBatteryVoltage (BatteryVoltage tick) of
        Inl e \<Rightarrow> Inl e
      | Inr f \<Rightarrow>
          FindTicks_loop jsonUnmarshal
            (result\<lparr>Ticks := Ticks result @ [tick\<lparr>BatteryVoltageVisual := f\<rparr>]\<rparr>) bb)))"

definition FindTicks ::
  "(string \<Rightarrow> error + Tick) \<Rightarrow> Redis \<Rightarrow> int \<Rightarrow> int \<Rightarrow> int \<Rightarrow> error + PaginatedTicks" where
  "FindTicks jsonUnmarshal st sensorID startIndex stopIndex =
     (case ZCARD st (keyOfSensorTicks sensorID) of
        Inl e \<Rightarrow> Inl e
      | Inr tot \<Rightarrow>
     (case ZREVRANGE st (keyOfSensorTicks sensorID) startIndex stopIndex of
        Inl e \<Rightarrow> Inl e
      | Inr bb \<Rightarrow> FindTicks_loop jsonUnmarshal \<lparr>Ticks = [], Total = tot\<rparr> bb))"

section \<open>storage.go\<close>

text \<open>
  \<^verbatim>\<open>findTicksByRange\<close>. Its decoder \<^verbatim>\<open>unmarshalTickJSON\<close> and the type of the
  ticks it builds are declared outside the two files at hand, so both are parameters.
\<close>

fun findTicksByRange_loop ::
  "(string \<Rightarrow> error + 't) \<Rightarrow> 't list \<Rightarrow> string list \<Rightarrow> error + 't list" where
  "findTicksByRange_loop unmarshalTickJSON ticks [] = Inr ticks"
| "findTicksByRange_loop unmarshalTickJSON ticks (b # bb) =
     (case unmarshalTickJSON b of
        Inl e \<Rightarrow> Inl e
      | Inr t \<Rightarrow> findTicksByRange_loop unmarshalTickJSON (ticks @ [t]) bb)"

definition findTicksByRange ::
  "(string \<Rightarrow> error + 't) \<Rightarrow> Redis \<Rightarrow> string \<Rightarrow> int \<Rightarrow> int \<Rightarrow> error + 't list" where
  "findTicksByRange unmarshalTickJSON st sensorID startIndex stopIndex =
     (case ZREVRANGE st (keyOfSensorTicks_storage sensorID) startIndex stopIndex of
        Inl e \<Rightarrow> Inl e
      | Inr bb \<Rightarrow> findTicksByRange_loop unmarshalTickJSON [] bb)"

definition addSensorToCoordinator ::
  "Redis \<Rightarrow> string \<Rightarrow> string \<Rightarrow> error option \<times> Redis" where
  "addSensorToCoordinator st sensorID coordinatorID =
     (case HSET st keySensorToController sensorID coordinatorID of
        Inl e \<Rightarrow> (Some e, st)
      | Inr st \<Rightarrow>
     (case SADD st (keyOfCoordinatorSensors coordinatorID) sensorID of
        Inl e \<Rightarrow> (Some e, st)
      | Inr st \<Rightarrow> (None, st)))"

definition findCoordinatorIDBySensorID :: "Redis \<Rightarrow> string \<Rightarrow> error + string" where
  "findCoordinatorIDBySensorID st sensorID =
     (case HGET st keySensorToController sensorID of
        Inl e \<Rightarrow> Inl e
      | Inr reply \<Rightarrow> Inr (redis_String reply))"

section \<open>Notions of the specification\<close>

text \<open>
  The fields of a raw record as the specification names them: the segments between
  the semicolons of what is left when the first and the last byte are dropped.
\<close>

definition parts_of :: "string \<Rightarrow> string list" where
  "parts_of input = Split (take (length input - 2) (drop 1 input)) (CHR '';'')"

text \<open>
  The weights of the bits 7 to 14 of an encoded temperature, from the lowest bit up,
  and the magnitude they add up to.
\<close>

definition weights :: "real list" where
  "weights = [0.5, 1, 2, 4, 8, 16, 32, 64]"

definition magnitude :: "32 word \<Rightarrow> real" where
  "magnitude n = sum_list (map (\<lambda>k. if bit n (7 + k) then weights ! k else 0) [0..<8])"

text \<open>
  A text that is an integer in decimal notation: an optional sign and at least one
  digit, nothing else; and the integer it denotes.
\<close>

definition is_integer_text :: "string \<Rightarrow> bool" where
  "is_integer_text s =
     (case s of
        [] \<Rightarrow> False
      | c # cs \<Rightarrow>
          if c = CHR ''+'' \<or> c = CHR ''-'' then cs \<noteq> [] \<and> list_all isDigit cs
          else list_all isDigit s)"

definition integer_value :: "string \<Rightarrow> int" where
  "integer_value s =
     (case s of
        [] \<Rightarrow> 0
      | c # cs \<Rightarrow>
          if c = CHR ''-'' then - int (digitsVal 0 cs)
          else if c = CHR ''+'' then int (digitsVal 0 cs)
          else int (digitsVal 0 s))"

section \<open>The JSON of a tick\<close>

text \<open>
  The functions above take the codec of \<^verbatim>\<open>encoding/json\<close> as a parameter. Where a
  tick has to be written and read back byte for byte, the encoder and the decoder of
  this section stand for it. The encoder writes what \<^verbatim>\<open>json.Marshal\<close> writes for a
  tick whose two derived fields are 0, as they are in every tick that is saved: the
  exported fields in the order of the struct under the names of their tags, the time in
  the format RFC 3339 with nanoseconds, a text field left out when it is empty, a byte
  that JSON or HTML reserves escaped, every byte outside ASCII as it is. It is exact
  on ticks of ASCII text, the only ones it is used on; \<^verbatim>\<open>json.Marshal\<close> also writes
  non-zero derived fields, where this encoder gives up with an error, and replaces
  bytes that are not UTF-8 and escapes the code points U+2028 and U+2029, which this
  encoder copies. The decoder reads such a text back into a tick with all other fields
  at their zero value.
\<close>

definition quote :: string where
  "quote = [CHR 0x22]"

definition hexDigit :: "nat \<Rightarrow> char" where
  "hexDigit k = ''0123456789abcdef'' ! k"

definition jsonEscape :: "char \<Rightarrow> string" where
  "jsonEscape c =
     (if c = CHR 0x22 then [CHR 0x5C, CHR 0x22]
      else if c = CHR 0x5C then [CHR 0x5C, CHR 0x5C]
      else if c = CHR 0x08 then [CHR 0x5C, CHR ''b'']
      else if c = CHR 0x0C then [CHR 0x5C, CHR ''f'']
      else if c = CHR 0x0A then [CHR 0x5C, CHR ''n'']
      else if c = CHR 0x0D then [CHR 0x5C, CHR ''r'']
      else if c = CHR 0x09 then [CHR 0x5C, CHR ''t'']
      else if c < CHR 0x20 \<or> c = CHR ''<'' \<or> c = CHR ''>'' \<or> c = CHR ''&''
      then CHR 0x5C # ''u00'' @ [hexDigit (of_char c div 16), hexDigit (of_char c mod 16)]
      else [c])"

definition jsonString :: "string \<Rightarrow> string" where
  "jsonString s = quote @ concat (map jsonEscape s) @ quote"

definition jsonTextField :: "string \<Rightarrow> string \<Rightarrow> string" where
  "jsonTextField name s =
     (if s = [] then [] else '','' @ quote @ name @ quote @ '':'' @ jsonString s)"

definition pad :: "nat \<Rightarrow> int \<Rightarrow> string" where
  "pad width i =
     (let ds = decimal (nat i) in replicate (width - length ds) (CHR ''0'') @ ds)"

definition formatRFC3339Nano :: "Time \<Rightarrow> string" where
  "formatRFC3339Nano t =
     pad 4 (tYear t) @ ''-'' @ pad 2 (tMonth t) @ ''-'' @ pad 2 (tDay t) @ ''T''
       @ pad 2 (tHour t) @ '':'' @ pad 2 (tMinute t) @ '':'' @ pad 2 (tSecond t)
       @ (if tNsec t = 0 then []
          else ''.'' @ rev (dropWhile (\<lambda>c. c = CHR ''0'') (rev (pad 9 (tNsec t)))))
       @ ''Z''"

definition jsonMarshalTick :: "Tick \<Rightarrow> error + string" where
  "jsonMarshalTick tick =
     (if tYear (Datetime tick) < 0 \<or> 10000 \<le> tYear (Datetime tick) then Inl JSONError
      else if Temperature tick \<noteq> 0 \<or> BatteryVoltageVisual tick \<noteq> 0 then Inl JSONError
      else Inr (''{'' @ quote @ ''datetime'' @ quote @ '':''
                  @ quote @ formatRFC3339Nano (Datetime tick) @ quote
                  @ '','' @ quote @ ''sensor_id'' @ quote @ '':'' @ Sprintf_d (SensorID tick)
                  @ jsonTextField ''next_data_session'' (NextDataSession tick)
                  @ jsonTextField ''battery_voltage'' (BatteryVoltage tick)
                  @ jsonTextField ''sensor1'' (Sensor1 tick)
                  @ jsonTextField ''sensor2'' (Sensor2 tick)
                  @ jsonTextField ''radio_quality'' (RadioQuality tick)
                  @ ''}''))"

text \<open>The decoder: a prefix that must be there, a string up to its closing quote.\<close>

fun expect :: "string \<Rightarrow> string \<Rightarrow> string option" where
  "expect [] v = Some v"
| "expect (p # ps) [] = None"
| "expect (p # ps) (c # cs) = (if p = c then expect ps cs else None)"

definition hexVal :: "char \<Rightarrow> nat option" where
  "hexVal c =
     (if isDigit c then Some (digitVal c)
      else if CHR ''a'' \<le> c \<and> c \<le> CHR ''f'' then Some (of_char c - 87)
      else None)"

definition unescape :: "char \<Rightarrow> char option" where
  "unescape e =
     (if e = CHR 0x22 \<or> e = CHR 0x5C \<or> e = CHR ''/'' then Some e
      else if e = CHR ''b'' then Some (CHR 0x08)
      else if e = CHR ''f'' then Some (CHR 0x0C)
      else if e = CHR ''n'' then Some (CHR 0x0A)
      else if e = CHR ''r'' then Some (CHR 0x0D)
      else if e = CHR ''t'' then Some (CHR 0x09)
      else None)"

fun readString :: "string \<Rightarrow> (string \<times> string) option" where
  "readString [] = None"
| "readString [c] = (if c = CHR 0x22 then Some ([], []) else None)"
| "readString (c # e # r) =
     (if c = CHR 0x22 then Some ([], e # r)
      else if c \<noteq> CHR 0x5C
      then map_option (\<lambda>(s, v). (c # s, v)) (readString (e # r))
      else if e \<noteq> CHR ''u''
      then (case unescape e of
              None \<Rightarrow> None
            | Some x \<Rightarrow> map_option (\<lambda>(s, v). (x # s, v)) (readString r))
      else (case r of
              z1 # z2 # h1 # h2 # r' \<Rightarrow>
                (case (hexVal h1, hexVal h2) of
                   (Some a, Some b) \<Rightarrow>
                     if z1 = CHR ''0'' \<and> z2 = CHR ''0''
                     then map_option (\<lambda>(s, v). (char_of (a * 16 + b) # s, v)) (readString r')
                     else None
                 | _ \<Rightarrow> None)
            | _ \<Rightarrow> None))"

definition readTextField :: "string \<Rightarrow> string \<Rightarrow> (string \<times> string) option" where
  "readTextField name v =
     (case expect ('','' @ quote @ name @ quote @ '':'' @ quote) v of
        None \<Rightarrow> Some ([], v)
      | Some r \<Rightarrow> readString r)"

definition parseRFC3339 :: "string \<Rightarrow> Time option" where
  "parseRFC3339 value = do {
     (y, v) \<leftarrow> longYear value;
     v \<leftarrow> skip_byte (CHR ''-'') v;
     (mo, v) \<leftarrow> getnum v True;
     v \<leftarrow> skip_byte (CHR ''-'') v;
     (d, v) \<leftarrow> getnum v True;
     v \<leftarrow> skip_byte (CHR ''T'') v;
     (h, v) \<leftarrow> getnum v True;
     v \<leftarrow> skip_byte (CHR '':'') v;
     (mi, v) \<leftarrow> getnum v True;
     v \<leftarrow> skip_byte (CHR '':'') v;
     (s, v) \<leftarrow> getnum v True;
     (case fracSecond v of
        (ns, v) \<Rightarrow>
          if v \<noteq> ''Z'' \<or> mo < 1 \<or> 12 < mo \<or> d < 1 \<or> d > daysIn mo y
             \<or> 24 \<le> h \<or> 60 \<le> mi \<or> 60 \<le> s
          then None
          else Some \<lparr>tYear = y, tMonth = mo, tDay = d, tHour = h,
                      tMinute = mi, tSecond = s, tNsec = ns\<rparr>)
   }"

definition jsonUnmarshalTick :: "string \<Rightarrow> error + Tick" where
  "jsonUnmarshalTick b =
     (case do {
        v \<leftarrow> expect (''{'' @ quote @ ''datetime'' @ quote @ '':'' @ quote) b;
        (ts, v) \<leftarrow> readString v;
        dt \<leftarrow> parseRFC3339 ts;
        v \<leftarrow> expect ('','' @ quote @ ''sensor_id'' @ quote @ '':'') v;
        sid \<leftarrow> (case ParseInt (takeWhile (\<lambda>c. c \<noteq> CHR '','' \<and> c \<noteq> CHR ''}'') v) 64 of
                  Inl e \<Rightarrow> None | Inr i \<Rightarrow> Some i);
        v \<leftarrow> Some (dropWhile (\<lambda>c. c \<noteq> CHR '','' \<and> c \<noteq> CHR ''}'') v);
        (nds, v) \<leftarrow> readTextField ''next_data_session'' v;
        (bv, v) \<leftarrow> readTextField ''battery_voltage'' v;
        (s1, v) \<leftarrow> readTextField ''sensor1'' v;
        (s2, v) \<leftarrow> readTextField ''sensor2'' v;
        (rq, v) \<leftarrow> readTextField ''radio_quality'' v;
        if v = ''}''
        then Some \<lparr>Datetime = dt, SensorID = sid, NextDataSession = nds,
                    BatteryVoltage = bv, Sensor1 = s1, Sensor2 = s2, RadioQuality = rq,
                    Temperature = 0, BatteryVoltageVisual = 0, controllerID = []\<rparr>
        else None
      } of
        None \<Rightarrow> Inl JSONError
      | Some tick \<Rightarrow> Inr tick)"

text \<open>
  The non-empty lines of a batch, in their order: the records the pipeline processes.
\<close>

definition records :: "string \<Rightarrow> string list" where
  "records tickList =
     filter (\<lambda>s. s \<noteq> []) (Split (Replace tickList (CHR 0x0D) (CHR 0x0A)) (CHR 0x0A))"

text \<open>
  The controller the specification's resolver names for a tick: the hint of the tick
  when it has one, else the association the store holds for the sensor, else the
  default controller 1. An association with the empty text counts as none.
\<close>

definition resolve :: "Redis \<Rightarrow> Tick \<Rightarrow> string" where
  "resolve st tick =
     (if controllerID tick \<noteq> [] then controllerID tick
      else (case hashes st keySensorToController (Sprintf_d (SensorID tick)) of
              None \<Rightarrow> ''1''
            | Some v \<Rightarrow> if v \<noteq> [] then v else ''1''))"

text \<open>
  The store after a tick is processed: the tick is in the series of its sensor under
  its rank, the resolved controller is a known controller and the controller of the
  sensor, and the sensor is a member of the controller.
\<close>

definition written :: "Redis \<Rightarrow> Tick \<Rightarrow> string \<Rightarrow> Redis" where
  "written st t b =
     st\<lparr>zsets := (zsets st)(key t := zadd (zsets st (key t)) (rank t) b),
        sets := ((sets st)(keyControllers := insert (resolve st t) (sets st keyControllers)))
          (keyOfControllerSensors (resolve st t) :=
             insert (Sprintf_d (SensorID t)) (sets st (keyOfControllerSensors (resolve st t)))),
        hashes := (hashes st)(keySensorToController :=
             (hashes st keySensorToController)(Sprintf_d (SensorID t) \<mapsto> resolve st t))\<rparr>"

text \<open>
  The batch of three records of the specification's example, the second of them
  malformed, and the tick its first record decodes to.
\<close>

definition example_batch :: string where
  "example_batch =
     ''[2024-1-1 10:0:0;42;60;3300;200;0;255]'' @ [CHR 0x0A] @ ''[bad-record]''
       @ [CHR 0x0A] @ ''[2024-1-1 10:0:1;42;60;3300;200;0;255]''"

definition example_tick :: Tick where
  "example_tick =
     \<lparr>Datetime = \<lparr>tYear = 2024, tMonth = 1, tDay = 1, tHour = 10, tMinute = 0,
                    tSecond = 0, tNsec = 0\<rparr>,
      SensorID = 42, NextDataSession = ''60'', BatteryVoltage = ''3300'',
      Sensor1 = ''200'', Sensor2 = ''0'', RadioQuality = ''255'',
      Temperature = 0, BatteryVoltageVisual = 0, controllerID = []\<rparr>"

text \<open>
  The two operations that write an association, the ingestion of a record and the
  registration of a sensor under a coordinator, and the store they leave, whatever they
  return.
\<close>

datatype operation = Ingest string | Register string string

fun apply_op :: "(Tick \<Rightarrow> error + string) \<Rightarrow> Redis \<Rightarrow> operation \<Rightarrow> Redis" where
  "apply_op jsonMarshal st (Ingest s) = snd (processTick jsonMarshal st s)"
| "apply_op jsonMarshal st (Register sensorID coordinatorID) =
     snd (addSensorToCoordinator st sensorID coordinatorID)"

text \<open>
  A series in the order of the server; running a decoder over the members of a reply,
  up to the first that fails; and what FindTicks makes of one member: the tick it
  decodes to, with the temperature and the battery voltage worked out from its texts.
\<close>

definition zset_sorted :: "(int \<times> string) list \<Rightarrow> bool" where
  "zset_sorted z = sorted_wrt zle z"

fun traverse :: "('a \<Rightarrow> error + 'b) \<Rightarrow> 'a list \<Rightarrow> error + 'b list" where
  "traverse f [] = Inr []"
| "traverse f (x # xs) =
     (case f x of
        Inl e \<Rightarrow> Inl e
      | Inr y \<Rightarrow> (case traverse f xs of Inl e \<Rightarrow> Inl e | Inr ys \<Rightarrow> Inr (y # ys)))"

definition readTick :: "(string \<Rightarrow> error + Tick) \<Rightarrow> string \<Rightarrow> error + Tick" where
  "readTick jsonUnmarshal b =
     (case jsonUnmarshal b of
        Inl e \<Rightarrow> Inl e
      | Inr tick \<Rightarrow>
     (case ParseInt (Sensor1 tick) 32 of
        Inl e \<Rightarrow> Inl e
      | Inr temperature \<Rightarrow>
     (case formatBatteryVoltage (BatteryVoltage tick) of
        Inl e \<Rightarrow> Inl e
      | Inr f \<Rightarrow>
          Inr (tick\<lparr>Temperature := decodeTemperature (word_of_int temperature),
                     BatteryVoltageVisual := f\<rparr>))))"

text \<open>
  The tick of the example at another second of its minute; a batch whose newest tick
  has a text for sensor1 that is no number; and a batch of two ticks within one second.
\<close>

definition tick_at :: "int \<Rightarrow> Tick" where
  "tick_at s = example_tick\<lparr>Datetime := (Datetime example_tick)\<lparr>tSecond := s\<rparr>\<rparr>"

definition batch_bad_sensor1 :: string where
  "batch_bad_sensor1 =
     ''[2024-1-1 10:0:0;42;60;3300;200;0;255]'' @ [CHR 0x0A]
       @ ''[2024-1-1 10:0:1;42;60;3300;200;0;255]'' @ [CHR 0x0A]
       @ ''[2024-1-1 10:0:2;42;60;3300;xx;0;255]''"

definition batch_same_second :: string where
  "batch_same_second =
     ''[2024-1-1 10:0:0;42;60;3300;200;0;255]'' @ [CHR 0x0A]
       @ ''[2024-1-1 10:0:0.5;42;60;3300;200;0;255]''"

text \<open>
  A batch of three records whose second record has only three fields, with a
  timestamp and a sensor id that parse.
\<close>

definition batch_short_record :: string where
  "batch_short_record =
     ''[2024-1-1 10:0:0;42;60;3300;200;0;255]'' @ [CHR 0x0A] @ ''[2024-1-1 10:0:1;42;60]''
       @ [CHR 0x0A] @ ''[2024-1-1 10:0:2;42;60;3300;200;0;255]''"

text \<open>The store with nothing in it.\<close>

definition emptyStore :: Redis where
  "emptyStore = \<lparr>available = True, sets = (\<lambda>k. {}), hashes = (\<lambda>k. Map.empty),
                  zsets = (\<lambda>k. [])\<rparr>"

section \<open>The decoder of raw records\<close>

lemmas decode_defs = NewTick_def time_Parse_def parseLayout_def longYear_def isDigit_def
  digitVal_def skip_byte_def getnum_def skip_space_def fracSecond_def daysIn_def isLeap_def
  ParseInt_def ParseUint_def

text \<open>What a successful decoding says about the record and the tick.\<close>

lemma NewTick_Inr_iff:
  "NewTick input = Inr t \<longleftrightarrow>
     2 \<le> length input \<and> 7 \<le> length (parts_of input) \<and>
     (\<exists>dt sid. time_Parse (parts_of input ! 0) = Inr dt \<and>
        ParseInt (parts_of input ! 1) 64 = Inr sid \<and>
        t = \<lparr>Datetime = dt, SensorID = sid,
             NextDataSession = parts_of input ! 2,
             BatteryVoltage = parts_of input ! 3,
             Sensor1 = parts_of input ! 4,
             Sensor2 = parts_of input ! 5,
             RadioQuality = parts_of input ! 6,
             Temperature = 0, BatteryVoltageVisual = 0,
             controllerID =
               (if 8 \<le> length (parts_of input) then parts_of input ! 7 else [])\<rparr>)"
  unfolding NewTick_def parts_of_def Let_def
  by (auto split: sum.splits)

lemma NewTick_take8:
  assumes "take 8 (parts_of i1) = take 8 (parts_of i2)"
    and "8 \<le> length (parts_of i1)" and "8 \<le> length (parts_of i2)"
    and "2 \<le> length i1" and "2 \<le> length i2"
  shows "NewTick i1 = NewTick i2"
proof -
  have "\<And>k. k < 8 \<Longrightarrow> parts_of i1 ! k = parts_of i2 ! k"
    using assms(1) by (metis nth_take)
  then have e: "parts_of i1 ! 0 = parts_of i2 ! 0" "parts_of i1 ! 1 = parts_of i2 ! 1"
    "parts_of i1 ! 2 = parts_of i2 ! 2" "parts_of i1 ! 3 = parts_of i2 ! 3"
    "parts_of i1 ! 4 = parts_of i2 ! 4" "parts_of i1 ! 5 = parts_of i2 ! 5"
    "parts_of i1 ! 6 = parts_of i2 ! 6" "parts_of i1 ! 7 = parts_of i2 ! 7"
    by simp_all
  show ?thesis
    using assms(2-5) e unfolding NewTick_def parts_of_def Let_def
    by (simp split: sum.splits)
qed

text \<open>
  A record of at least two bytes and seven fields never panics: it decodes, or one of
  the two parsers returns its error.
\<close>

lemma NewTick_seven_fields:
  assumes "2 \<le> length input" and "7 \<le> length (parts_of input)"
  shows "(\<exists>t. NewTick input = Inr t) \<or> (\<exists>e. NewTick input = Inl e \<and> is_DecodeError e)"
proof (cases "time_Parse (parts_of input ! 0)")
  case (Inl e)
  then have "e = ParseError"
    by (auto simp: time_Parse_def split: option.splits)
  then show ?thesis
    using assms Inl by (simp add: NewTick_def parts_of_def)
next
  case dt: (Inr dt)
  show ?thesis
  proof (cases "ParseInt (parts_of input ! 1) 64")
    case (Inl e)
    then have "is_DecodeError e"
      by (auto simp: ParseInt_def Let_def split: if_splits sum.splits num_error.splits)
    then show ?thesis
      using assms dt Inl by (simp add: NewTick_def parts_of_def)
  next
    case (Inr sid)
    then show ?thesis
      using assms dt by (simp add: NewTick_def parts_of_def Let_def)
  qed
qed

text \<open>
  Claim C2. The specification has NewTick return a decode error, and never crash, on a
  record of fewer than 7 fields, on a first field that is no timestamp and on a second
  field that is no number. The code returns the error of the parser in the last two
  cases, but it never looks at the number of fields: a record whose timestamp and sensor
  id parse and that has fewer than 7 fields panics on the index of the first field that
  is missing, a record that is only a timestamp panics on the index of the sensor id,
  and a record of one byte panics on the slice that drops the delimiters.
\<close>

theorem NewTick_short_record_panics:
  "NewTick ''[2024-1-1 10:0:0;42;60]'' = Inl (Panic IndexOutOfRange)
   \<and> length (parts_of ''[2024-1-1 10:0:0;42;60]'') = 3
   \<and> \<not> is_DecodeError (Panic IndexOutOfRange)
   \<and> NewTick ''[2024-1-1 10:0:0]'' = Inl (Panic IndexOutOfRange)
   \<and> NewTick ''x'' = Inl (Panic SliceBoundsOutOfRange)
   \<and> NewTick ''[bad-record]'' = Inl ParseError
   \<and> NewTick ''[2024-1-1 10:0:0;4x2;60]'' = Inl (NumError ErrSyntax)"
  by (simp add: decode_defs parts_of_def)

text \<open>
  Claim C9, as the code has it. Of a record that decodes, the five text fields
  nextDataSession, batteryVoltage, sensor1, sensor2 and radioQuality are the third to
  seventh segment of the record, byte for byte; the sensor id is kept as the number its
  segment denotes, not as the text of the segment.
\<close>

theorem NewTick_passthrough:
  assumes "NewTick input = Inr t"
  shows "7 \<le> length (parts_of input)
    \<and> NextDataSession t = parts_of input ! 2
    \<and> BatteryVoltage t = parts_of input ! 3
    \<and> Sensor1 t = parts_of input ! 4
    \<and> Sensor2 t = parts_of input ! 5
    \<and> RadioQuality t = parts_of input ! 6
    \<and> ParseInt (parts_of input ! 1) 64 = Inr (SensorID t)"
  using assms unfolding NewTick_Inr_iff by auto

theorem NewTick_passthrough_witness:
  "NewTick ''[2024-1-1 10:0:0;42; 60 ;3300;0200;;<x>]'' =
     Inr \<lparr>Datetime = \<lparr>tYear = 2024, tMonth = 1, tDay = 1, tHour = 10, tMinute = 0,
                       tSecond = 0, tNsec = 0\<rparr>,
          SensorID = 42, NextDataSession = '' 60 '', BatteryVoltage = ''3300'',
          Sensor1 = ''0200'', Sensor2 = [], RadioQuality = ''<x>'',
          Temperature = 0, BatteryVoltageVisual = 0, controllerID = []\<rparr>
   \<and> parts_of ''[2024-1-1 10:0:0;42; 60 ;3300;0200;;<x>]'' =
       [''2024-1-1 10:0:0'', ''42'', '' 60 '', ''3300'', ''0200'', [], ''<x>'']
   \<and> ParseInt ''42'' 64 = Inr 42"
proof -
  have h: "NewTick ''[2024-1-1 10:0:0;42; 60 ;3300;0200;;<x>]'' =
     Inr \<lparr>Datetime = \<lparr>tYear = 2024, tMonth = 1, tDay = 1, tHour = 10, tMinute = 0,
                       tSecond = 0, tNsec = 0\<rparr>,
          SensorID = 42, NextDataSession = '' 60 '', BatteryVoltage = ''3300'',
          Sensor1 = ''0200'', Sensor2 = [], RadioQuality = ''<x>'',
          Temperature = 0, BatteryVoltageVisual = 0, controllerID = []\<rparr>"
    by (simp add: decode_defs)
  have p: "parts_of ''[2024-1-1 10:0:0;42; 60 ;3300;0200;;<x>]'' =
       [''2024-1-1 10:0:0'', ''42'', '' 60 '', ''3300'', ''0200'', [], ''<x>'']"
    by (simp add: parts_of_def)
  from NewTick_passthrough [OF h] show ?thesis
    using h p by simp
qed

text \<open>
  The claim as the specification words it also has the sensor id pass through unchanged,
  equal to its segment. It does not: the segment 042 is stored as the number 42, which
  the program itself writes as 42 wherever it names the sensor.
\<close>

theorem NewTick_sensorID_normalised:
  "parts_of ''[2024-1-1 10:0:0;042;60;3300;200;0;255]'' ! 1 = ''042''
   \<and> map_sum id (\<lambda>t. Sprintf_d (SensorID t))
         (NewTick ''[2024-1-1 10:0:0;042;60;3300;200;0;255]'') = Inr ''42''
   \<and> ''42'' \<noteq> ''042''"
  by (simp add: decode_defs parts_of_def Sprintf_d_def decimal.simps)

text \<open>
  Claim C10. NewTick never looks at the two delimiters: on every input of at least two
  bytes the result is that of the record with the same interior between a left and a
  right bracket, so where the bracketed record decodes, so does this one, to the same
  tick. When the record has eight fields or more, the eighth is the controller hint of
  the tick, and two records that agree on their first eight fields decode alike.
\<close>

theorem NewTick_delimiters_and_hint:
  "(2 \<le> length input \<longrightarrow>
      NewTick input =
        NewTick (CHR ''['' # take (length input - 2) (drop 1 input) @ [CHR '']'']))
   \<and> (NewTick input = Inr t \<and> 8 \<le> length (parts_of input) \<longrightarrow>
        controllerID t = parts_of input ! 7)
   \<and> (2 \<le> length input \<and> 2 \<le> length input' \<and>
      8 \<le> length (parts_of input) \<and> 8 \<le> length (parts_of input') \<and>
      take 8 (parts_of input) = take 8 (parts_of input') \<longrightarrow>
        NewTick input = NewTick input')"
proof (intro conjI impI)
  assume "2 \<le> length input"
  then show "NewTick input =
    NewTick (CHR ''['' # take (length input - 2) (drop 1 input) @ [CHR '']''])"
    by (simp add: NewTick_def)
next
  assume "NewTick input = Inr t \<and> 8 \<le> length (parts_of input)"
  then show "controllerID t = parts_of input ! 7"
    unfolding NewTick_Inr_iff by auto
next
  assume "2 \<le> length input \<and> 2 \<le> length input' \<and>
      8 \<le> length (parts_of input) \<and> 8 \<le> length (parts_of input') \<and>
      take 8 (parts_of input) = take 8 (parts_of input')"
  then show "NewTick input = NewTick input'"
    using NewTick_take8 [of input input'] by simp
qed

theorem NewTick_delimiters_and_hint_witness:
  "NewTick ''(2024-1-1 10:0:0;42;60;3300;200;0;255;7;x;y)'' =
     Inr \<lparr>Datetime = \<lparr>tYear = 2024, tMonth = 1, tDay = 1, tHour = 10, tMinute = 0,
                       tSecond = 0, tNsec = 0\<rparr>,
          SensorID = 42, NextDataSession = ''60'', BatteryVoltage = ''3300'',
          Sensor1 = ''200'', Sensor2 = ''0'', RadioQuality = ''255'',
          Temperature = 0, BatteryVoltageVisual = 0, controllerID = ''7''\<rparr>
   \<and> NewTick ''(2024-1-1 10:0:0;42;60;3300;200;0;255;7;x;y)'' =
       NewTick ''[2024-1-1 10:0:0;42;60;3300;200;0;255;7;x;y]''
   \<and> length (parts_of ''(2024-1-1 10:0:0;42;60;3300;200;0;255;7;x;y)'') = 10
   \<and> parts_of ''(2024-1-1 10:0:0;42;60;3300;200;0;255;7;x;y)'' ! 7 = ''7''
   \<and> NewTick ''(2024-1-1 10:0:0;42;60;3300;200;0;255;7;x;y)'' =
       NewTick ''<2024-1-1 10:0:0;42;60;3300;200;0;255;7>''"
proof -
  let ?r = "''(2024-1-1 10:0:0;42;60;3300;200;0;255;7;x;y)''"
  let ?r' = "''<2024-1-1 10:0:0;42;60;3300;200;0;255;7>''"
  let ?t = "\<lparr>Datetime = \<lparr>tYear = 2024, tMonth = 1, tDay = 1, tHour = 10, tMinute = 0,
                       tSecond = 0, tNsec = 0\<rparr>,
          SensorID = 42, NextDataSession = ''60'', BatteryVoltage = ''3300'',
          Sensor1 = ''200'', Sensor2 = ''0'', RadioQuality = ''255'',
          Temperature = 0, BatteryVoltageVisual = 0, controllerID = ''7''\<rparr>"
  have h: "NewTick ?r = Inr ?t"
    and h1: "NewTick ''[2024-1-1 10:0:0;42;60;3300;200;0;255;7;x;y]'' = Inr ?t"
    and h2: "NewTick ?r' = Inr ?t"
    by (simp_all add: decode_defs)
  have p: "parts_of ?r =
      [''2024-1-1 10:0:0'', ''42'', ''60'', ''3300'', ''200'', ''0'', ''255'', ''7'', ''x'', ''y'']"
    and p': "parts_of ?r' =
      [''2024-1-1 10:0:0'', ''42'', ''60'', ''3300'', ''200'', ''0'', ''255'', ''7'']"
    by (simp_all add: parts_of_def)
  from NewTick_delimiters_and_hint [of ?r ?t ?r'] show ?thesis
    using h h1 h2 p p' by simp
qed

section \<open>The temperature\<close>

lemma upt_0_8: "[0..<8] = [0, 1, 2, 3, 4, 5, 6, 7 :: nat]"
  by (simp add: upt_rec)

text \<open>
  Claim C3. The decoded temperature is the sum of the weights of the bits 7 to 14 that
  are set, negated when bit 15 is set (a sum of 0 stays 0); replacing the bits 0 to 6
  by those of any other number leaves it as it is. Bit 7 alone gives 0.5, and the bits
  7 to 15 together give -127.5.
\<close>

theorem decodeTemperature_signed_magnitude:
  "decodeTemperature n = (if bit n 15 then - magnitude n else magnitude n)
   \<and> decodeTemperature ((n AND NOT (mask 7)) OR (m AND mask 7)) = decodeTemperature n
   \<and> decodeTemperature (push_bit 7 1) = 0.5
   \<and> decodeTemperature 0xFF80 = - 127.5"
proof (intro conjI)
  show "decodeTemperature n = (if bit n 15 then - magnitude n else magnitude n)"
    unfolding decodeTemperature_def magnitude_def weights_def upt_0_8 Let_def
      bit_iff_and_push_bit_not_eq_0 [symmetric]
    by simp
  show "decodeTemperature ((n AND NOT (mask 7)) OR (m AND mask 7)) = decodeTemperature n"
    unfolding decodeTemperature_def Let_def bit_iff_and_push_bit_not_eq_0 [symmetric]
    by (simp add: bit_simps)
  show "decodeTemperature (push_bit 7 1) = 0.5"
    by (simp add: decodeTemperature_def)
  show "decodeTemperature 0xFF80 = - 127.5"
    by (simp add: decodeTemperature_def)
qed

section \<open>The battery voltage\<close>

text \<open>How ParseInt with 64 bits treats the texts that are integers and those that are not.\<close>

lemma digitsVal_ge: "acc \<le> digitsVal acc cs"
proof (induction cs arbitrary: acc)
  case Nil
  then show ?case by simp
next
  case (Cons c cs)
  have "acc \<le> acc * 10 + digitVal c" by simp
  also have "\<dots> \<le> digitsVal (acc * 10 + digitVal c) cs" by (rule Cons.IH)
  finally show ?case by simp
qed

lemma ParseUint_loop_digits:
  assumes "list_all isDigit cs" and "M < 2 ^ 64" and "n \<le> M"
  shows "ParseUint_loop M n cs =
    (if digitsVal n cs \<le> M then Inr (digitsVal n cs) else Inl ErrRange)"
  using assms(1,3)
proof (induction cs arbitrary: n)
  case Nil
  then show ?case by simp
next
  case (Cons c cs)
  then have c: "isDigit c" and cs: "list_all isDigit cs" by simp_all
  show ?case
  proof (cases "n \<ge> (2 ^ 64 - 1) div 10 + 1")
    case True
    then have "M < n * 10 + digitVal c" using assms(2) by simp
    also have "\<dots> \<le> digitsVal (n * 10 + digitVal c) cs" by (rule digitsVal_ge)
    finally show ?thesis using True c by simp
  next
    case False
    show ?thesis
    proof (cases "n * 10 + digitVal c > M")
      case True
      then have "M < digitsVal (n * 10 + digitVal c) cs"
        using digitsVal_ge [of "n * 10 + digitVal c" cs] by simp
      then show ?thesis using True False c by (simp add: Let_def)
    next
      case le: False
      then have "n * 10 + digitVal c \<le> M" by simp
      from Cons.IH [OF cs this] show ?thesis using False le c by (simp add: Let_def)
    qed
  qed
qed

lemma ParseUint_loop_nondigit:
  "\<not> list_all isDigit cs \<Longrightarrow> \<exists>e. ParseUint_loop M n cs = Inl e"
  by (induction cs arbitrary: n) (auto simp: Let_def)


lemma ParseInt_unsigned:
  assumes "list_all isDigit s" and "s \<noteq> []"
  shows "ParseInt s 64 =
    (if digitsVal 0 s < 2 ^ 63 then Inr (int (digitsVal 0 s)) else Inl (NumError ErrRange))"
proof -
  have hd: "hd s \<noteq> CHR ''+''" "hd s \<noteq> CHR ''-''"
    using assms by (cases s; auto simp: isDigit_def)+
  have "ParseUint s 64 =
      (if digitsVal 0 s \<le> 2 ^ 64 - 1 then Inr (digitsVal 0 s) else Inl ErrRange)"
    using assms ParseUint_loop_digits [of s "2 ^ 64 - 1" 0] by (simp add: ParseUint_def)
  then show ?thesis
    using assms(2) hd by (auto simp: ParseInt_def Let_def)
qed

lemma ParseInt_signed:
  assumes "list_all isDigit cs" and "cs \<noteq> []" and "c = CHR ''+'' \<or> c = CHR ''-''"
  shows "ParseInt (c # cs) 64 =
    (if c = CHR ''-''
     then (if digitsVal 0 cs \<le> 2 ^ 63 then Inr (- int (digitsVal 0 cs))
           else Inl (NumError ErrRange))
     else (if digitsVal 0 cs < 2 ^ 63 then Inr (int (digitsVal 0 cs))
           else Inl (NumError ErrRange)))"
proof -
  have "ParseUint cs 64 =
      (if digitsVal 0 cs \<le> 2 ^ 64 - 1 then Inr (digitsVal 0 cs) else Inl ErrRange)"
    using assms ParseUint_loop_digits [of cs "2 ^ 64 - 1" 0] by (simp add: ParseUint_def)
  then show ?thesis
    using assms(2,3) by (auto simp: ParseInt_def Let_def)
qed

lemma ParseUint_nondigit:
  assumes "s = [] \<or> \<not> list_all isDigit s"
  shows "\<exists>e. ParseUint s b = Inl e"
proof (cases "s = []")
  case True
  then show ?thesis by (simp add: ParseUint_def)
next
  case False
  then have "\<not> list_all isDigit s" using assms by simp
  from ParseUint_loop_nondigit [OF this] show ?thesis
    using False by (simp add: ParseUint_def)
qed

lemma ParseInt_not_integer:
  assumes "\<not> is_integer_text s"
  shows "\<exists>e. ParseInt s 64 = Inl (NumError e)"
proof (cases s)
  case Nil
  then show ?thesis by (simp add: ParseInt_def)
next
  case (Cons c cs)
  show ?thesis
  proof (cases "c = CHR ''+'' \<or> c = CHR ''-''")
    case True
    then have "cs = [] \<or> \<not> list_all isDigit cs"
      using assms Cons by (auto simp: is_integer_text_def)
    then obtain e where "ParseUint cs 64 = Inl e"
      using ParseUint_nondigit by blast
    then show ?thesis using True Cons by (cases e) (auto simp: ParseInt_def Let_def)
  next
    case False
    then have "\<not> list_all isDigit s"
      using assms Cons by (auto simp: is_integer_text_def)
    then obtain e where "ParseUint s 64 = Inl e"
      using ParseUint_nondigit by blast
    then show ?thesis using False Cons by (cases e) (auto simp: ParseInt_def Let_def)
  qed
qed

lemma ParseInt_integer_text:
  assumes "is_integer_text s"
  shows "ParseInt s 64 =
    (if - (2 ^ 63) \<le> integer_value s \<and> integer_value s < 2 ^ 63
     then Inr (integer_value s) else Inl (NumError ErrRange))"
proof (cases s)
  case Nil
  then show ?thesis using assms by (simp add: is_integer_text_def)
next
  case (Cons c cs)
  show ?thesis
  proof (cases "c = CHR ''+'' \<or> c = CHR ''-''")
    case True
    then have "list_all isDigit cs" "cs \<noteq> []"
      using assms Cons by (auto simp: is_integer_text_def)
    from ParseInt_signed [OF this True] show ?thesis
      using True Cons by (auto simp: integer_value_def)
  next
    case False
    then have "list_all isDigit s" "s \<noteq> []"
      using assms Cons by (auto simp: is_integer_text_def)
    from ParseInt_unsigned [OF this] show ?thesis
      using False Cons by (auto simp: integer_value_def)
  qed
qed

text \<open>
  Claim C8, as the code has it. formatBatteryVoltage returns the integer of its input
  divided by 1000 when the input is an integer in decimal notation that an int64 holds,
  and the error of the parser on every other input: on a text that is no integer, and on
  an integer below -2^63 or above 2^63 - 1. The text 3300 gives 3.3 and abc fails.
\<close>

theorem formatBatteryVoltage_int64:
  "(is_integer_text raw \<and> - (2 ^ 63) \<le> integer_value raw \<and> integer_value raw < 2 ^ 63 \<longrightarrow>
      formatBatteryVoltage raw = Inr (real_of_int (integer_value raw) / 1000))
   \<and> (\<not> (is_integer_text raw \<and> - (2 ^ 63) \<le> integer_value raw \<and> integer_value raw < 2 ^ 63) \<longrightarrow>
      (\<exists>e. formatBatteryVoltage raw = Inl e \<and> is_DecodeError e))
   \<and> formatBatteryVoltage ''3300'' = Inr 3.3
   \<and> formatBatteryVoltage ''abc'' = Inl (NumError ErrSyntax)"
proof (intro conjI impI)
  assume "is_integer_text raw \<and> - (2 ^ 63) \<le> integer_value raw \<and> integer_value raw < 2 ^ 63"
  then show "formatBatteryVoltage raw = Inr (real_of_int (integer_value raw) / 1000)"
    using ParseInt_integer_text [of raw] by (simp add: formatBatteryVoltage_def)
next
  assume a: "\<not> (is_integer_text raw \<and> - (2 ^ 63) \<le> integer_value raw \<and> integer_value raw < 2 ^ 63)"
  show "\<exists>e. formatBatteryVoltage raw = Inl e \<and> is_DecodeError e"
  proof (cases "is_integer_text raw")
    case True
    then show ?thesis
      using a ParseInt_integer_text [of raw] by (auto simp: formatBatteryVoltage_def)
  next
    case False
    then show ?thesis
      using ParseInt_not_integer [of raw] by (auto simp: formatBatteryVoltage_def)
  qed
next
  show "formatBatteryVoltage ''3300'' = Inr 3.3"
    by (simp add: formatBatteryVoltage_def decode_defs)
  show "formatBatteryVoltage ''abc'' = Inl (NumError ErrSyntax)"
    by (simp add: formatBatteryVoltage_def decode_defs)
qed

theorem formatBatteryVoltage_int64_witness:
  "is_integer_text ''-3300'' \<and> integer_value ''-3300'' = - 3300
   \<and> formatBatteryVoltage ''-3300'' = Inr (- 3.3)
   \<and> \<not> is_integer_text ''3.3''
   \<and> formatBatteryVoltage ''3.3'' = Inl (NumError ErrSyntax)"
proof -
  have a: "is_integer_text ''-3300''" and b: "integer_value ''-3300'' = - 3300"
    and c: "\<not> is_integer_text ''3.3''"
    and d: "formatBatteryVoltage ''3.3'' = Inl (NumError ErrSyntax)"
    by (simp_all add: is_integer_text_def integer_value_def formatBatteryVoltage_def decode_defs)
  from formatBatteryVoltage_int64 [of "''-3300''"] show ?thesis
    using a b c d by simp
qed

text \<open>
  The claim as the specification words it has the function fail exactly on the inputs
  that are no integers. It also fails on integers: 2^63 is one.
\<close>

theorem formatBatteryVoltage_out_of_range:
  "is_integer_text ''9223372036854775808''
   \<and> integer_value ''9223372036854775808'' = 2 ^ 63
   \<and> formatBatteryVoltage ''9223372036854775808'' = Inl (NumError ErrRange)"
  by (simp add: is_integer_text_def integer_value_def formatBatteryVoltage_def decode_defs)

section \<open>The ingestion pipeline\<close>

lemma processTick_decode_error:
  "NewTick s = Inl e \<Longrightarrow> processTick jm st s = (Some e, st)"
  by (simp add: processTick_def)

lemma keys_differ [simp]: "keyControllers \<noteq> keyOfControllerSensors c"
  "keyOfControllerSensors c \<noteq> keyControllers"
  by (simp_all add: keyControllers_def keyOfControllerSensors_def)

lemma processTick_ok:
  assumes "available st" and "NewTick s = Inr t" and "jm t = Inr b"
  shows "processTick jm st s =
    (None, st\<lparr>zsets := (zsets st)(key t := zadd (zsets st (key t)) (rank t) b),
              sets := ((sets st)(keyControllers := insert (resolve st t) (sets st keyControllers)))
                (keyOfControllerSensors (resolve st t) :=
                   insert (Sprintf_d (SensorID t)) (sets st (keyOfControllerSensors (resolve st t)))),
              hashes := (hashes st)(keySensorToController :=
                   (hashes st keySensorToController)(Sprintf_d (SensorID t) \<mapsto> resolve st t))\<rparr>)"
  using assms
  by (auto simp: processTick_def Save_def ZADD_def HGET_def SADD_def HSET_def resolve_def
      redis_String_def Let_def split: option.splits)

text \<open>Splitting distributes over the separators of a text.\<close>

lemma Split_nonempty: "Split s sep \<noteq> []"
  by (induction s) (auto split: list.splits)

lemma Split_append: "Split (p @ sep # q) sep = Split p sep @ Split q sep"
proof (induction p)
  case Nil
  then show ?case by simp
next
  case (Cons c p)
  obtain x xs where x: "Split p sep = x # xs"
    using Split_nonempty [of p sep] by (cases "Split p sep") auto
  with Cons show ?case by simp
qed

lemma loop_append_fail:
  assumes "ProcessTicks_loop jm st n pre = (Inr k, st1)"
    and "s \<noteq> []" and "NewTick s = Inl e"
  shows "ProcessTicks_loop jm st n (pre @ s # rest) = (Inl e, st1)"
  using assms(1)
proof (induction pre arbitrary: st n)
  case Nil
  then show ?case
    using assms(2,3) by (simp add: processTick_decode_error)
next
  case (Cons x pre)
  show ?case
  proof (cases "x = []")
    case True
    then show ?thesis using Cons by simp
  next
    case False
    obtain r st' where p: "processTick jm st x = (r, st')"
      by (cases "processTick jm st x")
    show ?thesis
    proof (cases r)
      case None
      then show ?thesis using Cons False p by simp
    next
      case (Some e')
      then show ?thesis using Cons.prems False p by simp
    qed
  qed
qed

lemma loop_all_ok:
  assumes "available st"
    and "\<forall>s\<in>set ss. s \<noteq> [] \<longrightarrow> (\<exists>t b. NewTick s = Inr t \<and> jm t = Inr b)"
  shows "ProcessTicks_loop jm st n ss =
    (Inr (n + length (filter (\<lambda>s. s \<noteq> []) ss)),
     foldl (\<lambda>st s. snd (processTick jm st s)) st (filter (\<lambda>s. s \<noteq> []) ss))"
  using assms
proof (induction ss arbitrary: st n)
  case Nil
  then show ?case by simp
next
  case (Cons x ss)
  show ?case
  proof (cases "x = []")
    case True
    then show ?thesis using Cons by simp
  next
    case False
    then obtain t b where t: "NewTick x = Inr t" "jm t = Inr b"
      using Cons.prems(2) by auto
    obtain st' where p: "processTick jm st x = (None, st')" and a: "available st'"
      using processTick_ok [of st x t jm b] Cons.prems(1) t by simp
    have "ProcessTicks_loop jm st' (n + 1) ss =
      (Inr (n + 1 + length (filter (\<lambda>s. s \<noteq> []) ss)),
       foldl (\<lambda>st s. snd (processTick jm st s)) st' (filter (\<lambda>s. s \<noteq> []) ss))"
      using Cons.IH [OF a] Cons.prems(2) by simp
    then show ?thesis using False p by simp
  qed
qed

lemma processTick_cases:
  "(\<exists>e. processTick jm st s = (Some e, st)) \<or>
   (\<exists>t b. available st \<and> NewTick s = Inr t \<and> jm t = Inr b \<and>
      processTick jm st s = (None, written st t b))"
proof (cases "available st")
  case False
  then show ?thesis
    by (auto simp: processTick_def Save_def ZADD_def split: sum.splits)
next
  case True
  show ?thesis
  proof (cases "NewTick s")
    case (Inl e)
    then show ?thesis by (simp add: processTick_def)
  next
    case (Inr t)
    show ?thesis
    proof (cases "jm t")
      case (Inl e)
      then show ?thesis using Inr by (simp add: processTick_def Save_def)
    next
      case b: (Inr b)
      from processTick_ok [of st s t jm b] show ?thesis
        using True Inr b by (simp add: written_def)
    qed
  qed
qed

lemma members_zinsert: "snd ` set (zinsert e z) = insert (snd e) (snd ` set z)"
  by (induction z) auto

lemma members_zadd: "snd ` set (zadd z sc m) = insert m (snd ` set z)"
  by (auto simp: zadd_def members_zinsert)

lemma zsets_written:
  "zsets (written st t b) k =
     (if k = key t then zadd (zsets st k) (rank t) b else zsets st k)"
  by (simp add: written_def)

lemma sets_written:
  "sets st k \<subseteq> sets (written st t b) k"
  by (auto simp: written_def)

lemma available_written: "available (written st t b) = available st"
  by (simp add: written_def)

lemma processTick_members_mono:
  "snd ` set (zsets st k) \<subseteq> snd ` set (zsets (snd (processTick jm st s)) k)"
proof -
  consider e where "processTick jm st s = (Some e, st)"
    | t b where "processTick jm st s = (None, written st t b)"
    using processTick_cases [of jm st s] by blast
  then show ?thesis
  proof cases
    case 1
    then show ?thesis by simp
  next
    case 2
    then show ?thesis by (auto simp: zsets_written members_zadd)
  qed
qed

lemma processTick_sets_mono:
  "sets st k \<subseteq> sets (snd (processTick jm st s)) k"
proof -
  consider e where "processTick jm st s = (Some e, st)"
    | t b where "processTick jm st s = (None, written st t b)"
    using processTick_cases [of jm st s] by blast
  then show ?thesis
  proof cases
    case 1
    then show ?thesis by simp
  next
    case 2
    then show ?thesis using sets_written [of st k t b] by simp
  qed
qed

lemma processTick_available:
  "available (snd (processTick jm st s)) = available st"
  using processTick_cases [of jm st s] by (auto simp: available_written)

lemma foldl_members_mono:
  "snd ` set (zsets st k) \<subseteq>
     snd ` set (zsets (foldl (\<lambda>st s. snd (processTick jm st s)) st ss) k)"
proof (induction ss arbitrary: st)
  case Nil
  then show ?case by simp
next
  case (Cons x ss)
  from processTick_members_mono [of st k jm x] Cons [of "snd (processTick jm st x)"]
  show ?case by auto
qed

lemma foldl_available:
  "available (foldl (\<lambda>st s. snd (processTick jm st s)) st ss) = available st"
proof (induction ss arbitrary: st)
  case Nil
  then show ?case by simp
next
  case (Cons x ss)
  with processTick_available [of jm st x] show ?case by simp
qed

lemma foldl_persisted:
  assumes "available st" and "x \<in> set ss" and "NewTick x = Inr t" and "jm t = Inr b"
  shows "b \<in> snd ` set (zsets (foldl (\<lambda>st s. snd (processTick jm st s)) st ss) (key t))"
  using assms(1,2)
proof (induction ss arbitrary: st)
  case Nil
  then show ?case by simp
next
  case (Cons y ss)
  let ?st' = "snd (processTick jm st y)"
  have a: "available ?st'"
    using processTick_available [of jm st y] Cons.prems(1) by simp
  show ?case
  proof (cases "x = y")
    case True
    have "processTick jm st y = (None, written st t b)"
      using processTick_ok [of st y t jm b] Cons.prems(1) assms(3,4) True
      by (simp add: written_def)
    then have "b \<in> snd ` set (zsets ?st' (key t))"
      by (simp add: zsets_written members_zadd)
    then show ?thesis
      using foldl_members_mono [of ?st' "key t" jm ss] by auto
  next
    case False
    then have "x \<in> set ss" using Cons.prems(2) by simp
    from Cons.IH [OF a this] show ?thesis by simp
  qed
qed

lemma loop_filter:
  "ProcessTicks_loop jm st n ss = ProcessTicks_loop jm st n (filter (\<lambda>s. s \<noteq> []) ss)"
proof (induction ss arbitrary: st n)
  case Nil
  then show ?case by simp
next
  case (Cons x ss)
  show ?case
  proof (cases "x = []")
    case True
    then show ?thesis using Cons by simp
  next
    case False
    then show ?thesis using Cons by (simp split: prod.splits option.splits)
  qed
qed

lemma ProcessTicks_records:
  "ProcessTicks jm st batch = ProcessTicks_loop jm st 0 (records batch)"
  unfolding ProcessTicks_def records_def by (rule loop_filter)

lemma example_records:
  "records example_batch =
     [''[2024-1-1 10:0:0;42;60;3300;200;0;255]''] @ ''[bad-record]'' #
     [''[2024-1-1 10:0:1;42;60;3300;200;0;255]'']"
  by (simp add: records_def Replace_def example_batch_def)

lemma example_decodes:
  "NewTick ''[2024-1-1 10:0:0;42;60;3300;200;0;255]'' = Inr example_tick"
  "NewTick ''[bad-record]'' = Inl ParseError"
  by (simp_all add: decode_defs example_tick_def)

lemma example_rank: "rank example_tick = 1704103200"
  by (simp add: rank_def Unix_def daysFromCivil_def example_tick_def)

lemma example_key: "key example_tick = keyOfSensorTicks 42"
  by (simp add: key_def example_tick_def)

text \<open>
  What the pipeline does with a batch. It processes the records in their order. When
  the store is available and every record before the k-th decodes (and is encoded), and
  NewTick ends on the k-th without a tick, the batch ends there with the outcome of
  NewTick, a returned error or a panic, and the store is the one the records before it
  left: the ticks they appended are in the series of their sensors, and no later record
  has been processed. When every record decodes, ProcessTicks returns the number of the
  records. On the batch of three records of the specification's example, the first
  record is processed, the error of the second is returned, and a sensor 42 that had no
  tick before has exactly one.
\<close>

lemma ProcessTicks_batch:
  "(available st \<and> records batch = pre @ s # rest \<and>
      (\<forall>x\<in>set pre. \<exists>t b. NewTick x = Inr t \<and> jm t = Inr b) \<and> NewTick s = Inl e \<longrightarrow>
        ProcessTicks jm st batch =
          (Inl e, foldl (\<lambda>st x. snd (processTick jm st x)) st pre)
        \<and> (\<forall>x\<in>set pre. \<forall>t b. NewTick x = Inr t \<and> jm t = Inr b \<longrightarrow>
              b \<in> snd ` set (zsets (snd (ProcessTicks jm st batch)) (key t))))
   \<and> (available st \<and> (\<forall>x\<in>set (records batch). \<exists>t b. NewTick x = Inr t \<and> jm t = Inr b) \<longrightarrow>
        ProcessTicks jm st batch =
          (Inr (length (records batch)),
           foldl (\<lambda>st x. snd (processTick jm st x)) st (records batch)))
   \<and> (available st \<and> zsets st (keyOfSensorTicks 42) = [] \<and> jm example_tick = Inr p \<longrightarrow>
        ProcessTicks jm st example_batch = (Inl ParseError, written st example_tick p)
        \<and> zsets (written st example_tick p) (keyOfSensorTicks 42) = [(1704103200, p)]
        \<and> ZCARD (written st example_tick p) (keyOfSensorTicks 42) = Inr 1)"
proof (intro conjI impI)
  assume a: "available st \<and> records batch = pre @ s # rest \<and>
      (\<forall>x\<in>set pre. \<exists>t b. NewTick x = Inr t \<and> jm t = Inr b) \<and> NewTick s = Inl e"
  let ?st1 = "foldl (\<lambda>st x. snd (processTick jm st x)) st pre"
  have "\<forall>x\<in>set (records batch). x \<noteq> []"
    by (simp add: records_def)
  then have ne: "\<forall>x\<in>set (pre @ s # rest). x \<noteq> []"
    using a by simp
  then have pre: "filter (\<lambda>s. s \<noteq> []) pre = pre"
    by (auto intro: filter_True)
  have "ProcessTicks_loop jm st 0 pre = (Inr (0 + length pre), ?st1)"
    using loop_all_ok [of st pre jm 0] a pre by auto
  then have "ProcessTicks_loop jm st 0 (pre @ s # rest) = (Inl e, ?st1)"
    using loop_append_fail [of jm st 0 pre _ ?st1 s e rest] a ne by simp
  then show r: "ProcessTicks jm st batch = (Inl e, ?st1)"
    using a by (simp add: ProcessTicks_records)
  show "\<forall>x\<in>set pre. \<forall>t b. NewTick x = Inr t \<and> jm t = Inr b \<longrightarrow>
      b \<in> snd ` set (zsets (snd (ProcessTicks jm st batch)) (key t))"
    using r a foldl_persisted [of st _ pre _ jm] by auto
next
  assume a: "available st \<and>
    (\<forall>x\<in>set (records batch). \<exists>t b. NewTick x = Inr t \<and> jm t = Inr b)"
  have f: "filter (\<lambda>s. s \<noteq> []) (records batch) = records batch"
    by (simp add: records_def)
  show "ProcessTicks jm st batch =
      (Inr (length (records batch)),
       foldl (\<lambda>st x. snd (processTick jm st x)) st (records batch))"
    using loop_all_ok [of st "records batch" jm 0] a f
    by (simp add: ProcessTicks_records)
next
  assume a: "available st \<and> zsets st (keyOfSensorTicks 42) = [] \<and> jm example_tick = Inr p"
  let ?r1 = "''[2024-1-1 10:0:0;42;60;3300;200;0;255]''"
  have p1: "processTick jm st ?r1 = (None, written st example_tick p)"
    using processTick_ok [of st ?r1 example_tick jm p] a example_decodes(1)
    by (simp add: written_def)
  have "ProcessTicks_loop jm st 0 [?r1] = (Inr 1, written st example_tick p)"
    using p1 by simp
  then have "ProcessTicks_loop jm st 0 (records example_batch) =
      (Inl ParseError, written st example_tick p)"
    unfolding example_records
    using loop_append_fail [of jm st 0 "[?r1]" 1 "written st example_tick p"
        "''[bad-record]''" ParseError] example_decodes(2)
    by simp
  then show "ProcessTicks jm st example_batch = (Inl ParseError, written st example_tick p)"
    by (simp add: ProcessTicks_records)
  show z: "zsets (written st example_tick p) (keyOfSensorTicks 42) = [(1704103200, p)]"
    using a by (simp add: zsets_written example_key example_rank zadd_def)
  show "ZCARD (written st example_tick p) (keyOfSensorTicks 42) = Inr 1"
    using z a by (simp add: ZCARD_def available_written)
qed

lemma ProcessTicks_example_batch:
  "records example_batch =
     [''[2024-1-1 10:0:0;42;60;3300;200;0;255]'', ''[bad-record]'',
      ''[2024-1-1 10:0:1;42;60;3300;200;0;255]'']
   \<and> NewTick ''[2024-1-1 10:0:0;42;60;3300;200;0;255]'' = Inr example_tick
   \<and> NewTick ''[bad-record]'' = Inl ParseError
   \<and> fst (ProcessTicks jsonMarshalTick emptyStore example_batch) = Inl ParseError
   \<and> snd (ProcessTicks jsonMarshalTick emptyStore example_batch) =
       snd (processTick jsonMarshalTick emptyStore ''[2024-1-1 10:0:0;42;60;3300;200;0;255]'')
   \<and> ZCARD (snd (ProcessTicks jsonMarshalTick emptyStore example_batch))
       (keyOfSensorTicks 42) = Inr 1
   \<and> fst (ProcessTicks jsonMarshalTick emptyStore
       ''[2024-1-1 10:0:0;42;60;3300;200;0;255]'') = Inr 1"
proof -
  let ?r1 = "''[2024-1-1 10:0:0;42;60;3300;200;0;255]''"
  obtain b where b: "jsonMarshalTick example_tick = Inr b"
    by (simp add: jsonMarshalTick_def example_tick_def)
  have av: "available emptyStore" and z: "zsets emptyStore (keyOfSensorTicks 42) = []"
    by (simp_all add: emptyStore_def)
  have r1: "records ?r1 = [?r1]"
    by (simp add: records_def Replace_def)
  note inst = ProcessTicks_batch [where jm = jsonMarshalTick and st = emptyStore and p = b]
  have one: "ProcessTicks jsonMarshalTick emptyStore ?r1 =
      (Inr 1, foldl (\<lambda>st x. snd (processTick jsonMarshalTick st x)) emptyStore [?r1])"
    using inst [where batch = ?r1] av r1 example_decodes(1) b by simp
  have three: "ProcessTicks jsonMarshalTick emptyStore example_batch =
      (Inl ParseError, foldl (\<lambda>st x. snd (processTick jsonMarshalTick st x)) emptyStore [?r1])"
    using inst [where batch = example_batch and pre = "[?r1]" and s = "''[bad-record]''"
        and rest = "[''[2024-1-1 10:0:1;42;60;3300;200;0;255]'']" and e = ParseError]
      av example_records example_decodes b by simp
  have ex: "ProcessTicks jsonMarshalTick emptyStore example_batch =
      (Inl ParseError, written emptyStore example_tick b)"
    and card: "ZCARD (written emptyStore example_tick b) (keyOfSensorTicks 42) = Inr 1"
    using inst av z b by simp_all
  show ?thesis
    using example_records example_decodes one three ex card by simp
qed

text \<open>
  Claim C1. The specification has the pipeline return the failure when the k-th record
  of a batch fails to decode, and keep what the records before it appended. The code
  does so when NewTick returns an error. A record that fails to decode for want of
  fields makes NewTick panic instead, and nothing in the pipeline recovers: in the
  batch whose second record has three fields, the first record is processed and its
  tick stays in the series of sensor 42, the third record is never processed, and the
  pipeline ends in the panic of the second record, which is no decode error and is not
  returned to the caller.
\<close>

theorem ProcessTicks_short_record_panics:
  "records batch_short_record =
     [''[2024-1-1 10:0:0;42;60;3300;200;0;255]'', ''[2024-1-1 10:0:1;42;60]'',
      ''[2024-1-1 10:0:2;42;60;3300;200;0;255]'']
   \<and> NewTick ''[2024-1-1 10:0:0;42;60;3300;200;0;255]'' = Inr example_tick
   \<and> length (parts_of ''[2024-1-1 10:0:1;42;60]'') = 3
   \<and> NewTick ''[2024-1-1 10:0:1;42;60]'' = Inl (Panic IndexOutOfRange)
   \<and> \<not> is_DecodeError (Panic IndexOutOfRange)
   \<and> fst (ProcessTicks jsonMarshalTick emptyStore batch_short_record) =
       Inl (Panic IndexOutOfRange)
   \<and> snd (ProcessTicks jsonMarshalTick emptyStore batch_short_record) =
       snd (processTick jsonMarshalTick emptyStore ''[2024-1-1 10:0:0;42;60;3300;200;0;255]'')
   \<and> map fst (zsets (snd (ProcessTicks jsonMarshalTick emptyStore batch_short_record))
       (keyOfSensorTicks 42)) = [1704103200]
   \<and> ZCARD (snd (ProcessTicks jsonMarshalTick emptyStore batch_short_record))
       (keyOfSensorTicks 42) = Inr 1"
proof -
  let ?r1 = "''[2024-1-1 10:0:0;42;60;3300;200;0;255]''"
  let ?r2 = "''[2024-1-1 10:0:1;42;60]''"
  let ?r3 = "''[2024-1-1 10:0:2;42;60;3300;200;0;255]''"
  have recs: "records batch_short_record = [?r1] @ ?r2 # [?r3]"
    by (simp add: records_def Replace_def batch_short_record_def)
  have n2: "NewTick ?r2 = Inl (Panic IndexOutOfRange)"
    and l2: "length (parts_of ?r2) = 3"
    by (simp_all add: decode_defs parts_of_def)
  obtain b where b: "jsonMarshalTick example_tick = Inr b"
    by (simp add: jsonMarshalTick_def example_tick_def)
  have av: "available emptyStore" and z0: "zsets emptyStore (keyOfSensorTicks 42) = []"
    by (simp_all add: emptyStore_def)
  have p1: "processTick jsonMarshalTick emptyStore ?r1 = (None, written emptyStore example_tick b)"
    using processTick_ok [of emptyStore ?r1 example_tick jsonMarshalTick b] av
      example_decodes(1) b
    by (simp add: written_def)
  have "ProcessTicks jsonMarshalTick emptyStore batch_short_record =
      (Inl (Panic IndexOutOfRange),
       foldl (\<lambda>st x. snd (processTick jsonMarshalTick st x)) emptyStore [?r1])"
    using ProcessTicks_batch [where jm = jsonMarshalTick and st = emptyStore
        and batch = batch_short_record and pre = "[?r1]" and s = ?r2 and rest = "[?r3]"
        and e = "Panic IndexOutOfRange"]
      av recs example_decodes(1) n2 b by simp
  then have r: "ProcessTicks jsonMarshalTick emptyStore batch_short_record =
      (Inl (Panic IndexOutOfRange), written emptyStore example_tick b)"
    using p1 by simp
  have z: "zsets (written emptyStore example_tick b) (keyOfSensorTicks 42) = [(1704103200, b)]"
    using z0 by (simp add: zsets_written example_key example_rank zadd_def)
  have c: "ZCARD (written emptyStore example_tick b) (keyOfSensorTicks 42) = Inr 1"
    using z av by (simp add: ZCARD_def available_written)
  show ?thesis
    using recs example_decodes(1) l2 n2 r p1 z c by simp
qed

section \<open>Appending a tick twice\<close>

lemma filter_zinsert_other: "\<not> P e \<Longrightarrow> filter P (zinsert e z) = filter P z"
  by (induction z) auto

lemma filter_zinsert_only: "P e \<Longrightarrow> filter P z = [] \<Longrightarrow> filter P (zinsert e z) = [e]"
  by (induction z) (auto split: if_splits)

lemma zadd_idem: "zadd (zadd z sc m) sc m = zadd z sc m"
  by (simp add: zadd_def filter_zinsert_other)

lemma zadd_one_entry: "filter (\<lambda>e. snd e = m) (zadd z sc m) = [(sc, m)]"
  by (simp add: zadd_def filter_zinsert_only)

text \<open>
  Claim C4. When a tick has been appended, appending a tick of the same sensor with the
  same timestamp and the same serialized payload succeeds and leaves the store as it
  is, so the count of the sensor is unchanged; the series holds the payload exactly
  once.
\<close>

theorem Save_duplicate:
  assumes "Save jm st t = Inr st1"
    and "jm t' = jm t" and "SensorID t' = SensorID t" and "Datetime t' = Datetime t"
  shows "Save jm st1 t' = Inr st1
    \<and> (\<exists>b. jm t = Inr b \<and> filter (\<lambda>e. snd e = b) (zsets st1 (key t)) = [(rank t, b)])"
proof -
  obtain b where b: "jm t = Inr b"
    using assms(1) by (cases "jm t") (auto simp: Save_def)
  have av: "available st"
    and st1: "st1 = st\<lparr>zsets := (zsets st)(key t := zadd (zsets st (key t)) (rank t) b)\<rparr>"
    using assms(1) b by (auto simp: Save_def ZADD_def split: if_splits)
  have k: "key t' = key t" and r: "rank t' = rank t"
    using assms(3,4) by (simp_all add: key_def rank_def)
  have "Save jm st1 t' = Inr st1"
    using av b assms(2) by (simp add: Save_def ZADD_def st1 k r zadd_idem)
  moreover have "filter (\<lambda>e. snd e = b) (zsets st1 (key t)) = [(rank t, b)]"
    by (simp add: st1 zadd_one_entry)
  ultimately show ?thesis using b by simp
qed


theorem Save_duplicate_witness:
  "Save jsonMarshalTick emptyStore example_tick =
     Inr (emptyStore\<lparr>zsets := (zsets emptyStore)
            (keyOfSensorTicks 42 := [(1704103200, projr (jsonMarshalTick example_tick))])\<rparr>)
   \<and> jsonMarshalTick (example_tick\<lparr>controllerID := ''7''\<rparr>) = jsonMarshalTick example_tick
   \<and> Save jsonMarshalTick
        (emptyStore\<lparr>zsets := (zsets emptyStore)
            (keyOfSensorTicks 42 := [(1704103200, projr (jsonMarshalTick example_tick))])\<rparr>)
        (example_tick\<lparr>controllerID := ''7''\<rparr>) =
     Inr (emptyStore\<lparr>zsets := (zsets emptyStore)
            (keyOfSensorTicks 42 := [(1704103200, projr (jsonMarshalTick example_tick))])\<rparr>)"
proof -
  let ?st1 = "emptyStore\<lparr>zsets := (zsets emptyStore)
            (keyOfSensorTicks 42 := [(1704103200, projr (jsonMarshalTick example_tick))])\<rparr>"
  obtain b where b: "jsonMarshalTick example_tick = Inr b"
    by (simp add: jsonMarshalTick_def example_tick_def)
  have s: "Save jsonMarshalTick emptyStore example_tick = Inr ?st1"
    using b by (simp add: Save_def ZADD_def example_key example_rank zadd_def emptyStore_def)
  have m: "jsonMarshalTick (example_tick\<lparr>controllerID := ''7''\<rparr>) = jsonMarshalTick example_tick"
    by (simp add: jsonMarshalTick_def)
  from Save_duplicate [OF s m] show ?thesis
    using s m by simp
qed

section \<open>Associations\<close>

text \<open>
  Claim C6. When a record is processed, the controller is the hint of the tick when it
  has one, else the association the store holds, else the default controller 1; after
  the call the association of the sensor is that controller, the controller is among
  the known controllers and the sensor is a member of the controller. For a sensor
  without hint and without association the lookup that follows returns the default.
\<close>

theorem processTick_resolves:
  assumes "available st" and "NewTick s = Inr t" and "jm t = Inr b"
  shows "\<exists>st'. processTick jm st s = (None, st')
    \<and> findCoordinatorIDBySensorID st' (Sprintf_d (SensorID t)) = Inr (resolve st t)
    \<and> resolve st t \<in> sets st' keyControllers
    \<and> Sprintf_d (SensorID t) \<in> sets st' (keyOfControllerSensors (resolve st t))
    \<and> resolve st t =
        (if controllerID t \<noteq> [] then controllerID t
         else if findCoordinatorIDBySensorID st (Sprintf_d (SensorID t)) \<noteq> Inr []
              then projr (findCoordinatorIDBySensorID st (Sprintf_d (SensorID t)))
              else ''1'')
    \<and> (controllerID t = [] \<and> findCoordinatorIDBySensorID st (Sprintf_d (SensorID t)) = Inr []
          \<longrightarrow> findCoordinatorIDBySensorID st' (Sprintf_d (SensorID t)) = Inr ''1'')"
proof -
  have p: "processTick jm st s = (None, written st t b)"
    using processTick_ok [of st s t jm b] assms by (simp add: written_def)
  have r: "resolve st t =
        (if controllerID t \<noteq> [] then controllerID t
         else if findCoordinatorIDBySensorID st (Sprintf_d (SensorID t)) \<noteq> Inr []
              then projr (findCoordinatorIDBySensorID st (Sprintf_d (SensorID t)))
              else ''1'')"
    using assms(1)
    by (auto simp: resolve_def findCoordinatorIDBySensorID_def HGET_def redis_String_def
        split: option.splits)
  have l: "findCoordinatorIDBySensorID (written st t b) (Sprintf_d (SensorID t)) =
      Inr (resolve st t)"
    using assms(1)
    by (simp add: findCoordinatorIDBySensorID_def HGET_def written_def redis_String_def)
  have c: "resolve st t \<in> sets (written st t b) keyControllers"
    by (simp add: written_def)
  have m: "Sprintf_d (SensorID t) \<in> sets (written st t b) (keyOfControllerSensors (resolve st t))"
    by (simp add: written_def)
  have d: "controllerID t = [] \<and> findCoordinatorIDBySensorID st (Sprintf_d (SensorID t)) = Inr []
      \<longrightarrow> findCoordinatorIDBySensorID (written st t b) (Sprintf_d (SensorID t)) = Inr ''1''"
    using l r by simp
  from p l c m r d show ?thesis by blast
qed

lemma Sprintf_d_42: "Sprintf_d 42 = ''42''"
  by (simp add: Sprintf_d_def decimal.simps)

theorem processTick_resolves_witness:
  "NewTick ''[2024-1-1 10:0:0;42;60;3300;200;0;255]'' = Inr example_tick
   \<and> controllerID example_tick = []
   \<and> findCoordinatorIDBySensorID emptyStore ''42'' = Inr []
   \<and> fst (processTick jsonMarshalTick emptyStore ''[2024-1-1 10:0:0;42;60;3300;200;0;255]'') = None
   \<and> findCoordinatorIDBySensorID
        (snd (processTick jsonMarshalTick emptyStore ''[2024-1-1 10:0:0;42;60;3300;200;0;255]''))
        ''42'' = Inr ''1''
   \<and> ''1'' \<in> sets
        (snd (processTick jsonMarshalTick emptyStore ''[2024-1-1 10:0:0;42;60;3300;200;0;255]''))
        keyControllers
   \<and> ''42'' \<in> sets
        (snd (processTick jsonMarshalTick emptyStore ''[2024-1-1 10:0:0;42;60;3300;200;0;255]''))
        (keyOfControllerSensors ''1'')"
proof -
  let ?r1 = "''[2024-1-1 10:0:0;42;60;3300;200;0;255]''"
  obtain b where b: "jsonMarshalTick example_tick = Inr b"
    by (simp add: jsonMarshalTick_def example_tick_def)
  have av: "available emptyStore"
    and l0: "findCoordinatorIDBySensorID emptyStore ''42'' = Inr []"
    by (simp_all add: emptyStore_def findCoordinatorIDBySensorID_def HGET_def redis_String_def)
  have h: "controllerID example_tick = []" and i: "SensorID example_tick = 42"
    by (simp_all add: example_tick_def)
  from processTick_resolves [where jm = jsonMarshalTick, OF av example_decodes(1) b]
  obtain st' where st': "processTick jsonMarshalTick emptyStore ?r1 = (None, st')"
    "findCoordinatorIDBySensorID st' ''42'' = Inr (resolve emptyStore example_tick)"
    "resolve emptyStore example_tick \<in> sets st' keyControllers"
    "''42'' \<in> sets st' (keyOfControllerSensors (resolve emptyStore example_tick))"
    "resolve emptyStore example_tick = ''1''"
    using h i l0 by (auto simp: Sprintf_d_42)
  then show ?thesis
    using example_decodes(1) h l0 by simp
qed

lemma addSensorToCoordinator_ok:
  "available st \<Longrightarrow> addSensorToCoordinator st sensor c =
     (None, st\<lparr>hashes := (hashes st)(keySensorToController :=
                   (hashes st keySensorToController)(sensor \<mapsto> c)),
               sets := (sets st)(keyOfCoordinatorSensors c :=
                   insert sensor (sets st (keyOfCoordinatorSensors c)))\<rparr>)"
  by (simp add: addSensorToCoordinator_def HSET_def SADD_def)

lemma addSensorToCoordinator_unavailable:
  "\<not> available st \<Longrightarrow> addSensorToCoordinator st sensor c = (Some StoreError, st)"
  by (simp add: addSensorToCoordinator_def HSET_def)

lemma addSensorToCoordinator_sets_mono:
  "sets st k \<subseteq> sets (snd (addSensorToCoordinator st sensor c)) k"
  by (cases "available st")
    (auto simp: addSensorToCoordinator_ok addSensorToCoordinator_unavailable)

lemma addSensorToCoordinator_available:
  "available (snd (addSensorToCoordinator st sensor c)) = available st"
  by (cases "available st")
    (auto simp: addSensorToCoordinator_ok addSensorToCoordinator_unavailable)

lemma apply_op_sets_mono: "sets st k \<subseteq> sets (apply_op jm st op) k"
  by (cases op) (simp_all add: processTick_sets_mono addSensorToCoordinator_sets_mono)

lemma apply_op_available: "available (apply_op jm st op) = available st"
  by (cases op) (simp_all add: processTick_available addSensorToCoordinator_available)

lemma run_sets_mono: "sets st k \<subseteq> sets (foldl (apply_op jm) st ops) k"
proof (induction ops arbitrary: st)
  case Nil
  then show ?case by simp
next
  case (Cons op ops)
  from apply_op_sets_mono [of st k jm op] Cons [of "apply_op jm st op"]
  show ?case by auto
qed

lemma run_available: "available (foldl (apply_op jm) st ops) = available st"
  by (induction ops arbitrary: st) (simp_all add: apply_op_available)

lemma register_association:
  "available st \<Longrightarrow>
     findCoordinatorIDBySensorID (apply_op jm st (Register sensor c)) sensor = Inr c"
  by (simp add: addSensorToCoordinator_ok findCoordinatorIDBySensorID_def HGET_def
      redis_String_def)

lemma register_member:
  "available st \<Longrightarrow>
     sensor \<in> sets (apply_op jm st (Register sensor c)) (keyOfCoordinatorSensors c)"
  by (simp add: addSensorToCoordinator_ok)

text \<open>
  Claim C7. The association of a sensor is one field of a hash, so a sensor has at most
  one controller, and every write replaces it: after any sequence of operations that
  ends with a registration or with the ingestion of a record with a hint, the lookup
  returns the controller of that last operation. No operation takes a member out of a
  set: a sensor registered under a first controller and later under a second is
  associated with the second and still a member of the first.
\<close>

theorem association_overwritten_membership_kept:
  "(m \<in> sets st k \<longrightarrow> m \<in> sets (foldl (apply_op jm) st ops) k)
   \<and> (available st \<longrightarrow>
        findCoordinatorIDBySensorID
          (foldl (apply_op jm) st (ops @ [Register sensor c])) sensor = Inr c)
   \<and> (available st \<and> NewTick r = Inr t \<and> jm t = Inr b \<and> controllerID t \<noteq> [] \<longrightarrow>
        findCoordinatorIDBySensorID
          (foldl (apply_op jm) st (ops @ [Ingest r])) (Sprintf_d (SensorID t)) =
            Inr (controllerID t))
   \<and> (available st \<longrightarrow>
        findCoordinatorIDBySensorID
          (foldl (apply_op jm) st ([Register sensor c1] @ ops @ [Register sensor c2])) sensor =
            Inr c2
        \<and> sensor \<in> sets (foldl (apply_op jm) st ([Register sensor c1] @ ops @ [Register sensor c2]))
            (keyOfCoordinatorSensors c1)
        \<and> sensor \<in> sets (foldl (apply_op jm) st ([Register sensor c1] @ ops @ [Register sensor c2]))
            (keyOfCoordinatorSensors c2))"
proof (intro conjI impI)
  assume "m \<in> sets st k"
  then show "m \<in> sets (foldl (apply_op jm) st ops) k"
    using run_sets_mono [of st k jm ops] by auto
next
  assume a: "available st"
  then have "available (foldl (apply_op jm) st ops)"
    by (simp add: run_available)
  then show "findCoordinatorIDBySensorID
      (foldl (apply_op jm) st (ops @ [Register sensor c])) sensor = Inr c"
    using register_association by simp
next
  assume a: "available st \<and> NewTick r = Inr t \<and> jm t = Inr b \<and> controllerID t \<noteq> []"
  let ?st = "foldl (apply_op jm) st ops"
  have av: "available ?st" using a by (simp add: run_available)
  have "processTick jm ?st r = (None, written ?st t b)"
    using processTick_ok [of ?st r t jm b] a av by (simp add: written_def)
  moreover have "findCoordinatorIDBySensorID (written ?st t b) (Sprintf_d (SensorID t)) =
      Inr (controllerID t)"
    using a av
    by (simp add: findCoordinatorIDBySensorID_def HGET_def written_def redis_String_def
        resolve_def)
  ultimately show "findCoordinatorIDBySensorID
      (foldl (apply_op jm) st (ops @ [Ingest r])) (Sprintf_d (SensorID t)) = Inr (controllerID t)"
    by simp
next
  assume a: "available st"
  let ?st1 = "apply_op jm st (Register sensor c1)"
  let ?st2 = "foldl (apply_op jm) ?st1 ops"
  let ?st3 = "apply_op jm ?st2 (Register sensor c2)"
  have e: "foldl (apply_op jm) st ([Register sensor c1] @ ops @ [Register sensor c2]) = ?st3"
    by simp
  have av1: "available ?st1" using a apply_op_available by blast
  then have av2: "available ?st2" by (simp add: run_available)
  have "sensor \<in> sets ?st1 (keyOfCoordinatorSensors c1)"
    using a by (rule register_member)
  then have "sensor \<in> sets ?st2 (keyOfCoordinatorSensors c1)"
    using run_sets_mono [of ?st1 "keyOfCoordinatorSensors c1" jm ops] by auto
  then have m1: "sensor \<in> sets ?st3 (keyOfCoordinatorSensors c1)"
    using apply_op_sets_mono [of ?st2 "keyOfCoordinatorSensors c1" jm "Register sensor c2"]
    by auto
  have m2: "sensor \<in> sets ?st3 (keyOfCoordinatorSensors c2)"
    using av2 by (rule register_member)
  have l: "findCoordinatorIDBySensorID ?st3 sensor = Inr c2"
    using av2 by (rule register_association)
  show "findCoordinatorIDBySensorID
      (foldl (apply_op jm) st ([Register sensor c1] @ ops @ [Register sensor c2])) sensor = Inr c2"
    unfolding e by (rule l)
  show "sensor \<in> sets (foldl (apply_op jm) st ([Register sensor c1] @ ops @ [Register sensor c2]))
      (keyOfCoordinatorSensors c1)"
    unfolding e by (rule m1)
  show "sensor \<in> sets (foldl (apply_op jm) st ([Register sensor c1] @ ops @ [Register sensor c2]))
      (keyOfCoordinatorSensors c2)"
    unfolding e by (rule m2)
qed


theorem association_overwritten_membership_kept_witness:
  "findCoordinatorIDBySensorID
     (foldl (apply_op jsonMarshalTick) emptyStore [Register ''42'' ''1'', Register ''42'' ''7''])
     ''42'' = Inr ''7''
   \<and> ''42'' \<in> sets
       (foldl (apply_op jsonMarshalTick) emptyStore [Register ''42'' ''1'', Register ''42'' ''7''])
       (keyOfCoordinatorSensors ''1'')
   \<and> ''42'' \<in> sets
       (foldl (apply_op jsonMarshalTick) emptyStore [Register ''42'' ''1'', Register ''42'' ''7''])
       (keyOfCoordinatorSensors ''7'')
   \<and> findCoordinatorIDBySensorID
       (foldl (apply_op jsonMarshalTick) emptyStore
          [Ingest ''[2024-1-1 10:0:0;42;60;3300;200;0;255]'',
           Ingest ''[2024-1-1 10:0:5;42;60;3300;200;0;255;9]''])
       ''42'' = Inr ''9''
   \<and> ''42'' \<in> sets
       (foldl (apply_op jsonMarshalTick) emptyStore
          [Ingest ''[2024-1-1 10:0:0;42;60;3300;200;0;255]'',
           Ingest ''[2024-1-1 10:0:5;42;60;3300;200;0;255;9]''])
       (keyOfControllerSensors ''1'')"
proof -
  let ?r1 = "''[2024-1-1 10:0:0;42;60;3300;200;0;255]''"
  let ?r9 = "''[2024-1-1 10:0:5;42;60;3300;200;0;255;9]''"
  let ?t9 = "\<lparr>Datetime = \<lparr>tYear = 2024, tMonth = 1, tDay = 1, tHour = 10, tMinute = 0,
                       tSecond = 5, tNsec = 0\<rparr>,
          SensorID = 42, NextDataSession = ''60'', BatteryVoltage = ''3300'',
          Sensor1 = ''200'', Sensor2 = ''0'', RadioQuality = ''255'',
          Temperature = 0, BatteryVoltageVisual = 0, controllerID = ''9''\<rparr>"
  have av: "available emptyStore"
    by (simp add: emptyStore_def)
  obtain b where b: "jsonMarshalTick example_tick = Inr b"
    by (simp add: jsonMarshalTick_def example_tick_def)
  obtain b9 where b9: "jsonMarshalTick ?t9 = Inr b9"
    by (simp add: jsonMarshalTick_def)
  have n9: "NewTick ?r9 = Inr ?t9"
    by (simp add: decode_defs)
  have p1: "processTick jsonMarshalTick emptyStore ?r1 = (None, written emptyStore example_tick b)"
    using processTick_ok [of emptyStore ?r1 example_tick jsonMarshalTick b] av example_decodes(1) b
    by (simp add: written_def)
  have r1: "resolve emptyStore example_tick = ''1''"
    by (simp add: resolve_def example_tick_def emptyStore_def)
  have m1: "''42'' \<in> sets (apply_op jsonMarshalTick emptyStore (Ingest ?r1))
      (keyOfControllerSensors ''1'')"
    using p1 r1 by (simp add: written_def example_tick_def Sprintf_d_42)
  note inst = association_overwritten_membership_kept [where jm = jsonMarshalTick]
  have a: "findCoordinatorIDBySensorID
     (foldl (apply_op jsonMarshalTick) emptyStore ([Register ''42'' ''1''] @ [] @ [Register ''42'' ''7'']))
     ''42'' = Inr ''7''
   \<and> ''42'' \<in> sets
       (foldl (apply_op jsonMarshalTick) emptyStore ([Register ''42'' ''1''] @ [] @ [Register ''42'' ''7'']))
       (keyOfCoordinatorSensors ''1'')
   \<and> ''42'' \<in> sets
       (foldl (apply_op jsonMarshalTick) emptyStore ([Register ''42'' ''1''] @ [] @ [Register ''42'' ''7'']))
       (keyOfCoordinatorSensors ''7'')"
    using inst [where st = emptyStore and sensor = "''42''" and ?c1.0 = "''1''" and ?c2.0 = "''7''"
        and ops = "[]"] av by blast
  have c: "findCoordinatorIDBySensorID
       (foldl (apply_op jsonMarshalTick) emptyStore ([Ingest ?r1] @ [Ingest ?r9])) (Sprintf_d (SensorID ?t9))
         = Inr (controllerID ?t9)"
    using inst [where st = emptyStore and ops = "[Ingest ?r1]" and r = ?r9 and t = ?t9 and b = b9]
      av n9 b9 by simp
  have d: "''42'' \<in> sets (foldl (apply_op jsonMarshalTick)
        (apply_op jsonMarshalTick emptyStore (Ingest ?r1)) [Ingest ?r9])
      (keyOfControllerSensors ''1'')"
    using inst [where st = "apply_op jsonMarshalTick emptyStore (Ingest ?r1)" and m = "''42''"
        and k = "keyOfControllerSensors ''1''" and ops = "[Ingest ?r9]"] m1 by blast
  show ?thesis
    using a c d by (simp add: Sprintf_d_42)
qed

section \<open>Reading ticks by rank\<close>

lemma zle_total: "zle a b \<or> zle b a"
  by (auto simp: zle_def)

lemma zle_trans: "zle a b \<Longrightarrow> zle b c \<Longrightarrow> zle a c"
  by (auto simp: zle_def)

lemma set_zinsert: "set (zinsert e z) = insert e (set z)"
  by (induction z) auto

lemma sorted_zinsert: "sorted_wrt zle z \<Longrightarrow> sorted_wrt zle (zinsert e z)"
proof (induction z)
  case Nil
  then show ?case by simp
next
  case (Cons x xs)
  show ?case
  proof (cases "zle e x")
    case True
    then have "\<forall>y\<in>set xs. zle e y"
      using Cons.prems zle_trans by auto
    then show ?thesis using True Cons.prems by simp
  next
    case False
    then have "zle x e" using zle_total by blast
    then show ?thesis using False Cons by (auto simp: set_zinsert)
  qed
qed

lemma zset_sorted_zadd: "zset_sorted z \<Longrightarrow> zset_sorted (zadd z sc m)"
  unfolding zset_sorted_def zadd_def
  by (intro sorted_zinsert sorted_wrt_filter)

lemma zset_sorted_newest_first:
  assumes "zset_sorted z"
  shows "sorted_wrt (\<lambda>a b. fst a \<ge> fst b) (rev z)"
proof -
  have "sorted_wrt (\<lambda>a b. fst a \<le> fst b) z"
    using assms unfolding zset_sorted_def
    by (rule sorted_wrt_mono_rel [rotated]) (auto simp: zle_def)
  then show ?thesis
    by (simp add: sorted_wrt_rev)
qed

lemma zrevrange_nonneg:
  assumes "0 \<le> start" and "0 \<le> stop"
  shows "zrevrange z start stop =
    map snd (take (nat (stop - start + 1)) (drop (nat start) (rev z)))"
proof -
  have "take (nat (int (length z) - 1 - start + 1)) (drop (nat start) (rev (map snd z))) =
      drop (nat start) (rev (map snd z))"
    by (rule take_all) (use assms in auto)
  then show ?thesis
    using assms by (auto simp: zrevrange_def Let_def rev_map take_map drop_map)
qed

lemma zrevrange_open_end:
  assumes "0 \<le> start" and "int (length z) - 1 \<le> stop"
  shows "zrevrange z start stop = map snd (drop (nat start) (rev z))"
proof (cases "z = []")
  case True
  then show ?thesis by (simp add: zrevrange_def Let_def)
next
  case False
  then have "0 \<le> stop" using assms(2) by (cases z) auto
  from zrevrange_nonneg [OF assms(1) this] show ?thesis
    using assms(2) by simp
qed

lemma zinsert_newest:
  "\<forall>x\<in>set z. fst x < sc \<Longrightarrow> zinsert (sc, m) z = z @ [(sc, m)]"
  by (induction z) (auto simp: zle_def)

lemma zadd_newest:
  assumes "\<forall>x\<in>set z. fst x < sc"
  shows "zadd z sc m = filter (\<lambda>e. snd e \<noteq> m) z @ [(sc, m)]"
  unfolding zadd_def using assms by (intro zinsert_newest) auto

lemma scores_zadd: "fst ` set (zadd z sc m) \<subseteq> insert sc (fst ` set z)"
  by (auto simp: zadd_def set_zinsert)

lemma zrevrange_newest:
  assumes "\<forall>x\<in>set z. fst x < sc"
  shows "zrevrange (zadd z sc m) 0 0 = [m]"
  by (simp add: zrevrange_nonneg zadd_newest [OF assms])

lemma FindTicks_loop_traverse:
  "FindTicks_loop ju res bb =
     (case traverse (readTick ju) bb of
        Inl e \<Rightarrow> Inl e
      | Inr ts \<Rightarrow> Inr (res\<lparr>Ticks := Ticks res @ ts\<rparr>))"
  by (induction bb arbitrary: res)
    (auto simp: readTick_def Let_def split: sum.splits)

lemma findTicksByRange_loop_traverse:
  "findTicksByRange_loop u acc bb =
     (case traverse u bb of Inl e \<Rightarrow> Inl e | Inr ts \<Rightarrow> Inr (acc @ ts))"
  by (induction bb arbitrary: acc) (auto split: sum.splits)


lemma Save_Inr_iff:
  "Save jm st t = Inr st' \<longleftrightarrow>
     available st \<and>
     (\<exists>b. jm t = Inr b \<and>
        st' = st\<lparr>zsets := (zsets st)(key t := zadd (zsets st (key t)) (rank t) b)\<rparr>)"
  by (auto simp: Save_def ZADD_def split: sum.splits)

lemma Save_scores:
  assumes "Save jm st t = Inr st'"
  shows "fst ` set (zsets st' k) \<subseteq> insert (rank t) (fst ` set (zsets st k))"
proof -
  obtain b where "st' = st\<lparr>zsets := (zsets st)(key t := zadd (zsets st (key t)) (rank t) b)\<rparr>"
    using assms unfolding Save_Inr_iff by blast
  then show ?thesis
    using scores_zadd [of "zsets st k" "rank t" b] by auto
qed

lemma Save_sorted:
  assumes "Save jm st t = Inr st'" and "zset_sorted (zsets st k)"
  shows "zset_sorted (zsets st' k)"
proof -
  obtain b where "st' = st\<lparr>zsets := (zsets st)(key t := zadd (zsets st (key t)) (rank t) b)\<rparr>"
    using assms(1) unfolding Save_Inr_iff by blast
  then show ?thesis
    using assms(2) zset_sorted_zadd [of "zsets st k" "rank t" b] by auto
qed

lemma Save_newest:
  assumes "Save jm st t = Inr st'" and "jm t = Inr b"
    and "\<forall>e\<in>set (zsets st (key t)). fst e < rank t"
  shows "ZREVRANGE st' (key t) 0 0 = Inr [b]"
  using assms unfolding Save_Inr_iff
  by (auto simp: ZREVRANGE_def zrevrange_newest)

lemma keyOfSensorTicks_storage_Sprintf:
  "keyOfSensorTicks_storage (Sprintf_d sid) = keyOfSensorTicks sid"
  by (simp add: keyOfSensorTicks_storage_def keyOfSensorTicks_def)

lemma findTicksByRange_eq:
  "findTicksByRange u st sensor start stop =
     (case ZREVRANGE st (keyOfSensorTicks_storage sensor) start stop of
        Inl e \<Rightarrow> Inl e
      | Inr bb \<Rightarrow> traverse u bb)"
  by (simp add: findTicksByRange_def findTicksByRange_loop_traverse split: sum.splits)

lemma FindTicks_eq:
  "FindTicks ju st sid start stop =
     (case ZREVRANGE st (keyOfSensorTicks sid) start stop of
        Inl e \<Rightarrow> Inl e
      | Inr bb \<Rightarrow>
          (case traverse (readTick ju) bb of
             Inl e \<Rightarrow> Inl e
           | Inr ts \<Rightarrow>
               Inr \<lparr>Ticks = ts, Total = int (length (zsets st (keyOfSensorTicks sid)))\<rparr>))"
  by (auto simp: FindTicks_def ZCARD_def ZREVRANGE_def FindTicks_loop_traverse
      split: sum.splits)

text \<open>
  Claim C5, as the code has it. For indexes from 0 the server answers with the members
  of the series from the highest rank down, from the start index to the stop index, and
  to the end of the series when the stop index is beyond it; a series that appends have
  built is in the order of its ranks, so this is newest first, in the whole seconds of
  the rank. findTicksByRange decodes the members in that order. FindTicks also works out
  the temperature and the battery voltage of each tick, and returns the error of the
  parser when the sensor1 or the battery voltage of a tick in the range is no number.
  After ticks of one sensor are appended at seconds T1 < T2 < T3, no tick of the sensor
  being as new as T3, the range from 0 to 0 holds the payload of the T3 tick alone:
  findTicksByRange returns what it decodes to, and FindTicks the tick read back from it,
  or the error of reading it.
\<close>

theorem ticks_by_rank:
  "(available st \<and> 0 \<le> start \<and> 0 \<le> stop \<longrightarrow>
      ZREVRANGE st k start stop =
        Inr (map snd (take (nat (stop - start + 1)) (drop (nat start) (rev (zsets st k))))))
   \<and> (available st \<and> 0 \<le> start \<and> int (length (zsets st k)) - 1 \<le> stop \<longrightarrow>
      ZREVRANGE st k start stop = Inr (map snd (drop (nat start) (rev (zsets st k)))))
   \<and> (zset_sorted (zsets st k) \<longrightarrow>
        sorted_wrt (\<lambda>a b. fst a \<ge> fst b) (rev (zsets st k)))
   \<and> (zset_sorted (zsets st k) \<and> Save jm st t = Inr st' \<longrightarrow> zset_sorted (zsets st' k))
   \<and> findTicksByRange u st sensor start stop =
       (case ZREVRANGE st (keyOfSensorTicks_storage sensor) start stop of
          Inl e \<Rightarrow> Inl e
        | Inr bb \<Rightarrow> traverse u bb)
   \<and> FindTicks ju st sid start stop =
       (case ZREVRANGE st (keyOfSensorTicks sid) start stop of
          Inl e \<Rightarrow> Inl e
        | Inr bb \<Rightarrow>
            (case traverse (readTick ju) bb of
               Inl e \<Rightarrow> Inl e
             | Inr ts \<Rightarrow>
                 Inr \<lparr>Ticks = ts, Total = int (length (zsets st (keyOfSensorTicks sid)))\<rparr>))
   \<and> (SensorID t1 = sid \<and> SensorID t2 = sid \<and> SensorID t3 = sid \<and>
      rank t1 < rank t2 \<and> rank t2 < rank t3 \<and>
      (\<forall>e\<in>set (zsets st (keyOfSensorTicks sid)). fst e < rank t3) \<and>
      Save jm st t1 = Inr st1 \<and> Save jm st1 t2 = Inr st2 \<and> Save jm st2 t3 = Inr st3 \<and>
      jm t3 = Inr b3 \<longrightarrow>
        ZREVRANGE st3 (keyOfSensorTicks sid) 0 0 = Inr [b3]
        \<and> findTicksByRange u st3 (Sprintf_d sid) 0 0 =
            (case u b3 of Inl e \<Rightarrow> Inl e | Inr x \<Rightarrow> Inr [x])
        \<and> FindTicks ju st3 sid 0 0 =
            (case readTick ju b3 of
               Inl e \<Rightarrow> Inl e
             | Inr x \<Rightarrow>
                 Inr \<lparr>Ticks = [x],
                      Total = int (length (zsets st3 (keyOfSensorTicks sid)))\<rparr>))"
proof (intro conjI impI)
  assume "available st \<and> 0 \<le> start \<and> 0 \<le> stop"
  then show "ZREVRANGE st k start stop =
      Inr (map snd (take (nat (stop - start + 1)) (drop (nat start) (rev (zsets st k)))))"
    by (simp add: ZREVRANGE_def zrevrange_nonneg)
next
  assume "available st \<and> 0 \<le> start \<and> int (length (zsets st k)) - 1 \<le> stop"
  then show "ZREVRANGE st k start stop = Inr (map snd (drop (nat start) (rev (zsets st k))))"
    by (simp add: ZREVRANGE_def zrevrange_open_end)
next
  assume "zset_sorted (zsets st k)"
  then show "sorted_wrt (\<lambda>a b. fst a \<ge> fst b) (rev (zsets st k))"
    by (rule zset_sorted_newest_first)
next
  assume "zset_sorted (zsets st k) \<and> Save jm st t = Inr st'"
  then show "zset_sorted (zsets st' k)"
    using Save_sorted by blast
next
  show "findTicksByRange u st sensor start stop =
       (case ZREVRANGE st (keyOfSensorTicks_storage sensor) start stop of
          Inl e \<Rightarrow> Inl e
        | Inr bb \<Rightarrow> traverse u bb)"
    by (rule findTicksByRange_eq)
next
  show "FindTicks ju st sid start stop =
       (case ZREVRANGE st (keyOfSensorTicks sid) start stop of
          Inl e \<Rightarrow> Inl e
        | Inr bb \<Rightarrow>
            (case traverse (readTick ju) bb of
               Inl e \<Rightarrow> Inl e
             | Inr ts \<Rightarrow>
                 Inr \<lparr>Ticks = ts, Total = int (length (zsets st (keyOfSensorTicks sid)))\<rparr>))"
    by (rule FindTicks_eq)
next
  assume a: "SensorID t1 = sid \<and> SensorID t2 = sid \<and> SensorID t3 = sid \<and>
      rank t1 < rank t2 \<and> rank t2 < rank t3 \<and>
      (\<forall>e\<in>set (zsets st (keyOfSensorTicks sid)). fst e < rank t3) \<and>
      Save jm st t1 = Inr st1 \<and> Save jm st1 t2 = Inr st2 \<and> Save jm st2 t3 = Inr st3 \<and>
      jm t3 = Inr b3"
  let ?k = "keyOfSensorTicks sid"
  have k: "key t3 = ?k" using a by (simp add: key_def)
  have "fst ` set (zsets st1 ?k) \<subseteq> insert (rank t1) (fst ` set (zsets st ?k))"
    using a Save_scores by blast
  moreover have "fst ` set (zsets st2 ?k) \<subseteq> insert (rank t2) (fst ` set (zsets st1 ?k))"
    using a Save_scores by blast
  ultimately have "\<forall>e\<in>set (zsets st2 ?k). fst e < rank t3"
    using a by fastforce
  then show z: "ZREVRANGE st3 ?k 0 0 = Inr [b3]"
    using Save_newest [of jm st2 t3 st3 b3] a k by simp
  show "findTicksByRange u st3 (Sprintf_d sid) 0 0 =
      (case u b3 of Inl e \<Rightarrow> Inl e | Inr x \<Rightarrow> Inr [x])"
    using z by (simp add: findTicksByRange_eq keyOfSensorTicks_storage_Sprintf split: sum.splits)
  show "FindTicks ju st3 sid 0 0 =
      (case readTick ju b3 of
         Inl e \<Rightarrow> Inl e
       | Inr x \<Rightarrow>
           Inr \<lparr>Ticks = [x], Total = int (length (zsets st3 (keyOfSensorTicks sid)))\<rparr>)"
    using z by (simp add: FindTicks_eq split: sum.splits)
qed

lemmas json_defs = jsonMarshalTick_def jsonUnmarshalTick_def formatRFC3339Nano_def pad_def
  decimal.simps jsonTextField_def jsonString_def jsonEscape_def quote_def Sprintf_d_def
  readTextField_def parseRFC3339_def hexDigit_def hexVal_def unescape_def

lemmas store_defs = ProcessTicks_def Replace_def processTick_def Save_def ZADD_def HGET_def
  SADD_def HSET_def ZCARD_def ZREVRANGE_def zrevrange_def zadd_def zle_def redis_String_def
  emptyStore_def key_def rank_def Unix_def daysFromCivil_def keyOfSensorTicks_def
  keyControllers_def keySensorToController_def keyOfControllerSensors_def
  keyOfSensorTicks_storage_def FindTicks_def findTicksByRange_def

lemma Save_projr:
  assumes "available st" and "jm t = Inr b"
  shows "Save jm st t = Inr (projr (Save jm st t))" and "available (projr (Save jm st t))"
  using assms by (simp_all add: Save_def ZADD_def)

theorem ticks_by_rank_witness:
  "rank (tick_at 0) < rank (tick_at 1) \<and> rank (tick_at 1) < rank (tick_at 2)
   \<and> FindTicks jsonUnmarshalTick
        (projr (Save jsonMarshalTick
          (projr (Save jsonMarshalTick
            (projr (Save jsonMarshalTick emptyStore (tick_at 0))) (tick_at 1))) (tick_at 2)))
        42 0 0 =
      Inr \<lparr>Ticks = [(tick_at 2)\<lparr>Temperature := 0.5, BatteryVoltageVisual := 3.3\<rparr>],
           Total = 3\<rparr>
   \<and> findTicksByRange jsonUnmarshalTick
        (projr (Save jsonMarshalTick
          (projr (Save jsonMarshalTick
            (projr (Save jsonMarshalTick emptyStore (tick_at 0))) (tick_at 1))) (tick_at 2)))
        ''42'' 0 0 =
      Inr [tick_at 2]"
proof -
  let ?st1 = "projr (Save jsonMarshalTick emptyStore (tick_at 0))"
  let ?st2 = "projr (Save jsonMarshalTick ?st1 (tick_at 1))"
  let ?st3 = "projr (Save jsonMarshalTick ?st2 (tick_at 2))"
  have r: "rank (tick_at 0) = 1704103200" "rank (tick_at 1) = 1704103201"
    "rank (tick_at 2) = 1704103202"
    by (simp_all add: tick_at_def example_tick_def rank_def Unix_def daysFromCivil_def)
  have i: "SensorID (tick_at 0) = 42" "SensorID (tick_at 1) = 42" "SensorID (tick_at 2) = 42"
    by (simp_all add: tick_at_def example_tick_def)
  obtain b1 b2 b3 where b: "jsonMarshalTick (tick_at 0) = Inr b1"
    "jsonMarshalTick (tick_at 1) = Inr b2" and b3: "jsonMarshalTick (tick_at 2) = Inr b3"
    by (simp add: jsonMarshalTick_def tick_at_def example_tick_def)
  have a0: "available emptyStore"
    by (simp add: emptyStore_def)
  have s1: "Save jsonMarshalTick emptyStore (tick_at 0) = Inr ?st1" and a1: "available ?st1"
    using Save_projr [where jm = jsonMarshalTick, OF a0 b(1)] by simp_all
  have s2: "Save jsonMarshalTick ?st1 (tick_at 1) = Inr ?st2" and a2: "available ?st2"
    using Save_projr [where jm = jsonMarshalTick, OF a1 b(2)] by simp_all
  have s3: "Save jsonMarshalTick ?st2 (tick_at 2) = Inr ?st3"
    using Save_projr [where jm = jsonMarshalTick, OF a2 b3] by simp
  have e: "\<forall>e\<in>set (zsets emptyStore (keyOfSensorTicks 42)). fst e < rank (tick_at 2)"
    by (simp add: emptyStore_def)
  note inst = ticks_by_rank [where jm = jsonMarshalTick and st = emptyStore and sid = 42
      and ?t1.0 = "tick_at 0" and ?t2.0 = "tick_at 1" and ?t3.0 = "tick_at 2"
      and ?st1.0 = ?st1 and ?st2.0 = ?st2 and ?st3.0 = ?st3 and ?b3.0 = b3
      and ju = jsonUnmarshalTick and u = jsonUnmarshalTick]
  have f: "FindTicks jsonUnmarshalTick ?st3 42 0 0 =
      (case readTick jsonUnmarshalTick b3 of
         Inl e \<Rightarrow> Inl e
       | Inr x \<Rightarrow> Inr \<lparr>Ticks = [x], Total = int (length (zsets ?st3 (keyOfSensorTicks 42)))\<rparr>)"
    and g: "findTicksByRange jsonUnmarshalTick ?st3 (Sprintf_d 42) 0 0 =
      (case jsonUnmarshalTick b3 of Inl e \<Rightarrow> Inl e | Inr x \<Rightarrow> Inr [x])"
    using inst r i s1 s2 s3 b3 e by simp_all
  have "jsonUnmarshalTick (projr (jsonMarshalTick (tick_at 2))) = Inr (tick_at 2)"
    by (simp add: json_defs tick_at_def example_tick_def decode_defs)
  then have u: "jsonUnmarshalTick b3 = Inr (tick_at 2)"
    by (simp add: b3)
  have rt: "readTick jsonUnmarshalTick b3 =
      Inr ((tick_at 2)\<lparr>Temperature := 0.5, BatteryVoltageVisual := 3.3\<rparr>)"
    using u by (simp add: readTick_def tick_at_def example_tick_def decode_defs
        formatBatteryVoltage_def decodeTemperature_def)
  have n: "length (zsets ?st3 (keyOfSensorTicks 42)) = 3"
    by (simp add: store_defs json_defs tick_at_def example_tick_def)
  show ?thesis
    using r f g u rt n by (simp add: Sprintf_d_42)
qed

text \<open>
  The claim as the specification words it has the query return the T3 tick whatever
  the ticks are. FindTicks does not when the T3 tick has a sensor1 that is no number:
  the three ticks are stored, the newest is the T3 tick, and FindTicks returns the
  syntax error of its sensor1. Nor is the order by timestamp below the second: of two
  ticks at 10:00:00 and 10:00:00.5 the earlier one comes first.
\<close>

theorem FindTicks_fails_on_stored_tick:
  "fst (ProcessTicks jsonMarshalTick emptyStore batch_bad_sensor1) = Inr 3
   \<and> ZCARD (snd (ProcessTicks jsonMarshalTick emptyStore batch_bad_sensor1))
        (keyOfSensorTicks 42) = Inr 3
   \<and> map_sum id (map (\<lambda>b. map_sum id (\<lambda>t. (Datetime t, Sensor1 t)) (jsonUnmarshalTick b)))
        (ZREVRANGE (snd (ProcessTicks jsonMarshalTick emptyStore batch_bad_sensor1))
           (keyOfSensorTicks 42) 0 0) =
      Inr [Inr (\<lparr>tYear = 2024, tMonth = 1, tDay = 1, tHour = 10, tMinute = 0, tSecond = 2,
                  tNsec = 0\<rparr>, ''xx'')]
   \<and> FindTicks jsonUnmarshalTick
        (snd (ProcessTicks jsonMarshalTick emptyStore batch_bad_sensor1)) 42 0 0 =
      Inl (NumError ErrSyntax)
   \<and> fst (ProcessTicks jsonMarshalTick emptyStore batch_same_second) = Inr 2
   \<and> map_sum id (\<lambda>r. map (\<lambda>t. (tSecond (Datetime t), tNsec (Datetime t))) (Ticks r))
        (FindTicks jsonUnmarshalTick
           (snd (ProcessTicks jsonMarshalTick emptyStore batch_same_second)) 42 0 9999999999) =
      Inr [(0, 0), (0, 500000000)]"
  by (simp add: batch_bad_sensor1_def batch_same_second_def store_defs json_defs decode_defs
      formatBatteryVoltage_def decodeTemperature_def Let_def)

end
